theory Spec2Isabelle
  imports Complex_Main "HOL-Library.Word"
begin

section \<open>Off-chain scheduler and provider client: a shallow embedding\<close>

text \<open>
  The two programs \<^verbatim>\<open>offchain/scheduler.py\<close> and \<^verbatim>\<open>offchain/provider_client.py\<close>
  talk to an Ethereum node through web3. The node is modelled as a record of
  transition functions over an arbitrary world state \<open>'w\<close>: every remote call takes the
  world, answers with an exception (\<open>Inl\<close>) or a value (\<open>Inr\<close>) and returns the next
  world. Every Python function is a function from the world to its outcome, the next
  world and the list of observable events it produced (log lines and remote calls), in
  program order.
\<close>

subsection \<open>Values, exceptions, events\<close>

type_synonym address = string
type_synonym bytes = string

text \<open>The exceptions that reach an \<^verbatim>\<open>except Exception\<close> handler. \<open>AssertionError\<close> and
  \<open>RuntimeError\<close> are raised by the programs themselves, the others by the libraries.\<close>

datatype exn =
    AssertionError string
  | RuntimeError string
  | ValueError string
  | TimeExhausted
  | ConnectionError string

text \<open>The contract functions the programs build transactions for.\<close>

datatype call =
    SetJobAudit int bool
  | AssignJobToOptimalNode int
  | CompleteJob int bytes string

record account =
  acct_address :: address
  acct_key :: string

record tx_params =
  tx_from :: address
  tx_nonce :: nat
  tx_gas :: nat
  tx_maxFeePerGas :: nat
  tx_maxPriorityFeePerGas :: nat
  tx_chainId :: nat

record transaction =
  tx_call :: call
  tx_fields :: tx_params

datatype signed_tx = Signed account transaction

record receipt =
  status :: int
  receipt_tx :: bytes

record job_created =
  ev_block :: int
  ev_jobId :: int
  ev_client :: address

text \<open>The lines the programs print, with their arguments.\<close>

datatype log_line =
    EnabledAudit int
  | AuditEnableFailed int exn
  | NotFundedYet int
  | EscrowCheckFailed int exn
  | AssignedJob int
  | AssignmentFailed int exn
  | DiscoveredJob int address
  | SubmittingResult int
  | LoopError exn

text \<open>Observable events: a printed line, an entry into \<^verbatim>\<open>send_tx\<close>, and the remote
  calls that matter to the properties below.\<close>

datatype event =
    Print log_line
  | SendTx call
  | BuildTransaction call
  | Broadcast signed_tx
  | IsFundedCall int
  | GetLogs int int
  | ProcessJob int
  | RunWorkload int

text \<open>A Python float: a finite rational, an infinity or a NaN.\<close>

datatype pyfloat = Finite rat | PosInf | NegInf | NaN

text \<open>The node and the operating system, as far as the programs use them.
  \<^verbatim>\<open>random.random()\<close> returns \<open>k / 2^53\<close> for a 53-bit \<open>k\<close>; the field gives \<open>k\<close>.\<close>

record 'w env =
  eth_block_number :: "'w \<Rightarrow> (exn + int) \<times> 'w"
  eth_chain_id :: "'w \<Rightarrow> (exn + nat) \<times> 'w"
  eth_get_transaction_count :: "address \<Rightarrow> 'w \<Rightarrow> (exn + nat) \<times> 'w"
  build_transaction :: "call \<Rightarrow> tx_params \<Rightarrow> 'w \<Rightarrow> (exn + transaction) \<times> 'w"
  eth_send_raw_transaction :: "signed_tx \<Rightarrow> 'w \<Rightarrow> (exn + bytes) \<times> 'w"
  eth_wait_for_transaction_receipt :: "bytes \<Rightarrow> 'w \<Rightarrow> (exn + receipt) \<times> 'w"
  escrow_isFunded :: "address \<Rightarrow> int \<Rightarrow> 'w \<Rightarrow> (exn + bool) \<times> 'w"
  get_all_entries :: "int \<Rightarrow> int \<Rightarrow> 'w \<Rightarrow> (exn + job_created list) \<times> 'w"
  getRecommendedJobs :: "address \<Rightarrow> 'w \<Rightarrow> (exn + int list) \<times> 'w"
  is_connected :: "'w \<Rightarrow> bool \<times> 'w"
  random_random :: "'w \<Rightarrow> 53 word \<times> 'w"
  time_time :: "'w \<Rightarrow> rat \<times> 'w"

type_synonym ('w, 'a) outcome = "(exn + 'a) \<times> 'w \<times> event list"

subsection \<open>\<^verbatim>\<open>send_tx\<close>\<close>

definition gwei :: nat where
  "gwei = 1000000000"

text \<open>
  The dictionary handed to \<^verbatim>\<open>build_transaction\<close> is evaluated first, left to right:
  the nonce read, then the chain id read. An exception of any step leaves
  \<^verbatim>\<open>send_tx\<close> as it is: there is no handler in the function.
\<close>

definition submit :: "'w env \<Rightarrow> nat \<Rightarrow> account \<Rightarrow> call \<Rightarrow> 'w \<Rightarrow> ('w, receipt) outcome" where
  "submit nd gas a fn w0 =
     (case eth_get_transaction_count nd (acct_address a) w0 of
        (Inl e, w1) \<Rightarrow> (Inl e, w1, [])
      | (Inr nonce, w1) \<Rightarrow>
     (case eth_chain_id nd w1 of
        (Inl e, w2) \<Rightarrow> (Inl e, w2, [])
      | (Inr cid, w2) \<Rightarrow>
     (case build_transaction nd fn
             \<lparr>tx_from = acct_address a, tx_nonce = nonce, tx_gas = gas,
              tx_maxFeePerGas = 2 * gwei, tx_maxPriorityFeePerGas = 1 * gwei,
              tx_chainId = cid\<rparr> w2 of
        (Inl e, w3) \<Rightarrow> (Inl e, w3, [BuildTransaction fn])
      | (Inr tx, w3) \<Rightarrow>
     (case eth_send_raw_transaction nd (Signed a tx) w3 of
        (Inl e, w4) \<Rightarrow> (Inl e, w4, [BuildTransaction fn, Broadcast (Signed a tx)])
      | (Inr tx_hash, w4) \<Rightarrow>
     (case eth_wait_for_transaction_receipt nd tx_hash w4 of
        (Inl e, w5) \<Rightarrow> (Inl e, w5, [BuildTransaction fn, Broadcast (Signed a tx)])
      | (Inr r, w5) \<Rightarrow>
          (if status r \<noteq> 1 then Inl (RuntimeError ''Transaction failed'') else Inr r,
           w5, [BuildTransaction fn, Broadcast (Signed a tx)]))))))"

text \<open>The scheduler's \<^verbatim>\<open>send_tx\<close>: the assertion on the account, then the submission
  with a gas limit of 1,000,000.\<close>

definition send_tx :: "'w env \<Rightarrow> account option \<Rightarrow> call \<Rightarrow> 'w \<Rightarrow> ('w, receipt) outcome" where
  "send_tx nd acct fn w =
     (case acct of
        None \<Rightarrow> (Inl (AssertionError ''PRIVATE_KEY required''), w, [SendTx fn])
      | Some a \<Rightarrow>
          (case submit nd 1000000 a fn w of (r, w', evs) \<Rightarrow> (r, w', SendTx fn # evs)))"

text \<open>The provider's \<^verbatim>\<open>send_tx\<close>: the account always exists, the gas limit is 800,000.\<close>

definition provider_send_tx :: "'w env \<Rightarrow> account \<Rightarrow> call \<Rightarrow> 'w \<Rightarrow> ('w, receipt) outcome" where
  "provider_send_tx nd a fn w =
     (case submit nd 800000 a fn w of (r, w', evs) \<Rightarrow> (r, w', SendTx fn # evs))"

subsection \<open>The scheduler: \<^verbatim>\<open>process_job\<close>\<close>

text \<open>The module-level bindings of the scheduler that its functions read.\<close>

record scheduler =
  JOB_MANAGER :: address
  COMPUTE_ESCROW :: address
  START_BLOCK :: int
  AUDIT_PROBABILITY :: pyfloat
  POLL_INTERVAL :: int
  acct :: "account option"
  escrow :: "address option"

definition random_value :: "53 word \<Rightarrow> rat" where
  "random_value k = of_nat (unat k) / 2 ^ 53"

text \<open>\<^verbatim>\<open>random.random() < AUDIT_PROBABILITY\<close>: every comparison with a NaN is false.\<close>

definition draw_below :: "53 word \<Rightarrow> pyfloat \<Rightarrow> bool" where
  "draw_below k p =
     (case p of Finite q \<Rightarrow> random_value k < q | PosInf \<Rightarrow> True
      | NegInf \<Rightarrow> False | NaN \<Rightarrow> False)"

text \<open>Lines 59 to 64: the audit draw and, below the probability, the audit transaction
  inside its own handler.\<close>

definition audit_step :: "'w env \<Rightarrow> scheduler \<Rightarrow> int \<Rightarrow> 'w \<Rightarrow> 'w \<times> event list" where
  "audit_step nd m job_id w0 =
     (case random_random nd w0 of (k, w1) \<Rightarrow>
        if draw_below k (AUDIT_PROBABILITY m) then
          (case send_tx nd (acct m) (SetJobAudit job_id True) w1 of
             (Inr r, w2, evs) \<Rightarrow> (w2, evs @ [Print (EnabledAudit job_id)])
           | (Inl e, w2, evs) \<Rightarrow> (w2, evs @ [Print (AuditEnableFailed job_id e)]))
        else (w1, []))"

text \<open>Lines 67 to 74: the funding read. The first component says whether
  \<^verbatim>\<open>process_job\<close> goes on to the assignment: only the \<^verbatim>\<open>return\<close> under
  \<^verbatim>\<open>if not funded\<close> leaves the function; the handler prints and falls through.\<close>

definition funding_step :: "'w env \<Rightarrow> scheduler \<Rightarrow> int \<Rightarrow> 'w \<Rightarrow> bool \<times> 'w \<times> event list" where
  "funding_step nd m job_id w0 =
     (case escrow m of
        None \<Rightarrow> (True, w0, [])
      | Some c \<Rightarrow>
          (case escrow_isFunded nd c job_id w0 of
             (Inr funded, w1) \<Rightarrow>
               if \<not> funded then (False, w1, [IsFundedCall job_id, Print (NotFundedYet job_id)])
               else (True, w1, [IsFundedCall job_id])
           | (Inl e, w1) \<Rightarrow>
               (True, w1, [IsFundedCall job_id, Print (EscrowCheckFailed job_id e)])))"

text \<open>Lines 77 to 81: the assignment transaction inside its own handler.\<close>

definition assign_step :: "'w env \<Rightarrow> scheduler \<Rightarrow> int \<Rightarrow> 'w \<Rightarrow> 'w \<times> event list" where
  "assign_step nd m job_id w0 =
     (case send_tx nd (acct m) (AssignJobToOptimalNode job_id) w0 of
        (Inr r, w1, evs) \<Rightarrow> (w1, evs @ [Print (AssignedJob job_id)])
      | (Inl e, w1, evs) \<Rightarrow> (w1, evs @ [Print (AssignmentFailed job_id e)]))"

definition process_job :: "'w env \<Rightarrow> scheduler \<Rightarrow> int \<Rightarrow> 'w \<Rightarrow> 'w \<times> event list" where
  "process_job nd m job_id w0 =
     (case audit_step nd m job_id w0 of (w1, evs1) \<Rightarrow>
      case funding_step nd m job_id w1 of (go_on, w2, evs2) \<Rightarrow>
        if go_on then
          (case assign_step nd m job_id w2 of (w3, evs3) \<Rightarrow>
             (w3, ProcessJob job_id # evs1 @ evs2 @ evs3))
        else (w2, ProcessJob job_id # evs1 @ evs2))"

subsection \<open>The scheduler: the discovery loop\<close>

text \<open>The \<^verbatim>\<open>for\<close> loop of lines 98 to 101 over the entries the filter returned.\<close>

fun process_entries ::
  "'w env \<Rightarrow> scheduler \<Rightarrow> job_created list \<Rightarrow> 'w \<Rightarrow> 'w \<times> event list" where
  "process_entries nd m [] w = (w, [])"
| "process_entries nd m (e # es) w =
     (case process_job nd m (ev_jobId e) w of (w1, evs1) \<Rightarrow>
      case process_entries nd m es w1 of (w2, evs2) \<Rightarrow>
        (w2, Print (DiscoveredJob (ev_jobId e) (ev_client e)) # evs1 @ evs2))"

text \<open>One pass through the body of \<^verbatim>\<open>while True\<close> (lines 93 to 104), from the cursor
  \<open>last_block\<close> to the next cursor. The sleep between two passes has no effect on the
  cursor and is left out.\<close>

definition scheduler_iteration ::
  "'w env \<Rightarrow> scheduler \<Rightarrow> int \<Rightarrow> 'w \<Rightarrow> int \<times> 'w \<times> event list" where
  "scheduler_iteration nd m last_block w0 =
     (case eth_block_number nd w0 of
        (Inl e, w1) \<Rightarrow> (last_block, w1, [Print (LoopError e)])
      | (Inr current, w1) \<Rightarrow>
          if current \<ge> last_block then
            (case get_all_entries nd last_block current w1 of
               (Inl e, w2) \<Rightarrow>
                 (last_block, w2, [GetLogs last_block current, Print (LoopError e)])
             | (Inr entries, w2) \<Rightarrow>
                 (case process_entries nd m entries w2 of (w3, evs) \<Rightarrow>
                    (current + 1, w3, GetLogs last_block current # evs)))
          else (last_block, w1, []))"

text \<open>The first \<open>n\<close> passes of the loop, which never ends by itself.\<close>

fun scheduler_loop ::
  "'w env \<Rightarrow> scheduler \<Rightarrow> nat \<Rightarrow> int \<Rightarrow> 'w \<Rightarrow> int \<times> 'w \<times> event list" where
  "scheduler_loop nd m 0 last_block w = (last_block, w, [])"
| "scheduler_loop nd m (Suc n) last_block w =
     (case scheduler_iteration nd m last_block w of (c1, w1, evs1) \<Rightarrow>
      case scheduler_loop nd m n c1 w1 of (c2, w2, evs2) \<Rightarrow> (c2, w2, evs1 @ evs2))"

text \<open>Line 91: \<^verbatim>\<open>START_BLOCK or w3.eth.block_number\<close>; outside every handler.\<close>

definition initial_cursor :: "'w env \<Rightarrow> scheduler \<Rightarrow> 'w \<Rightarrow> (exn + int) \<times> 'w" where
  "initial_cursor nd m w =
     (if START_BLOCK m \<noteq> 0 then (Inr (START_BLOCK m), w) else eth_block_number nd w)"

subsection \<open>The scheduler: module initialisation\<close>

text \<open>The functions of Python and of the client library that the module-level code
  calls on configuration strings. They are parameters of the model.\<close>

record pylib =
  to_checksum_address :: "string \<Rightarrow> exn + address"
  py_int :: "string \<Rightarrow> exn + int"
  py_float :: "string \<Rightarrow> exn + pyfloat"
  from_key :: "string \<Rightarrow> exn + account"

definition getenv :: "(string \<rightharpoonup> string) \<Rightarrow> string \<Rightarrow> string \<Rightarrow> string" where
  "getenv environ name dflt = (case environ name of None \<Rightarrow> dflt | Some v \<Rightarrow> v)"

definition zero_address :: string where
  "zero_address = ''0x0000000000000000000000000000000000000000''"

text \<open>Lines 10 to 36 of the scheduler, in order; the first exception ends the program.
  In line 36 the condition of the conditional expression is evaluated first, and its
  right operand is \<^verbatim>\<open>Web3.to_checksum_address("0x0")\<close>.\<close>

definition scheduler_init ::
  "pylib \<Rightarrow> 'w env \<Rightarrow> (string \<rightharpoonup> string) \<Rightarrow> 'w \<Rightarrow> (exn + scheduler) \<times> 'w" where
  "scheduler_init lib nd environ w0 =
     (let private_key = getenv environ ''PRIVATE_KEY'' [] in
      case to_checksum_address lib (getenv environ ''JOB_MANAGER'' zero_address) of
        Inl e \<Rightarrow> (Inl e, w0)
      | Inr jm \<Rightarrow>
     (case to_checksum_address lib (getenv environ ''COMPUTE_ESCROW'' zero_address) of
        Inl e \<Rightarrow> (Inl e, w0)
      | Inr ce \<Rightarrow>
     (case py_int lib (getenv environ ''START_BLOCK'' ''0'') of
        Inl e \<Rightarrow> (Inl e, w0)
      | Inr sb \<Rightarrow>
     (case py_float lib (getenv environ ''AUDIT_PROBABILITY'' ''0.2'') of
        Inl e \<Rightarrow> (Inl e, w0)
      | Inr ap \<Rightarrow>
     (case py_int lib (getenv environ ''POLL_INTERVAL'' ''10'') of
        Inl e \<Rightarrow> (Inl e, w0)
      | Inr poll \<Rightarrow>
     (case is_connected nd w0 of (ok, w1) \<Rightarrow>
        if \<not> ok then (Inl (AssertionError ''Cannot connect to RPC''), w1)
        else
     (case (if private_key \<noteq> [] then map_sum id Some (from_key lib private_key)
            else Inr None) of
        Inl e \<Rightarrow> (Inl e, w1)
      | Inr a \<Rightarrow>
     (case to_checksum_address lib ''0x0'' of
        Inl e \<Rightarrow> (Inl e, w1)
      | Inr z \<Rightarrow>
          (Inr \<lparr>JOB_MANAGER = jm, COMPUTE_ESCROW = ce, START_BLOCK = sb,
                AUDIT_PROBABILITY = ap, POLL_INTERVAL = poll, acct = a,
                escrow = (if ce \<noteq> z then Some ce else None)\<rparr>, w1)))))))))"

text \<open>The address check of \<^verbatim>\<open>eth_utils.to_checksum_address\<close> on a string: the text is
  put in lower case and must be forty hexadecimal digits after an optional \<^verbatim>\<open>0x\<close>;
  anything else raises \<^verbatim>\<open>ValueError\<close>. The capitalisation that the checksum adds to the
  digits is left out: the result here is the lower-case form.\<close>

definition lower_char :: "char \<Rightarrow> char" where
  "lower_char c =
     (let n = (of_char c :: nat) in if 65 \<le> n \<and> n \<le> 90 then char_of (n + 32) else c)"

definition is_hex_digit :: "char \<Rightarrow> bool" where
  "is_hex_digit c = (c \<in> set ''0123456789abcdef'')"

definition remove_0x_prefix :: "string \<Rightarrow> string" where
  "remove_0x_prefix s = (if take 2 s = ''0x'' then drop 2 s else s)"

definition checked_address :: "string \<Rightarrow> exn + address" where
  "checked_address s =
     (let h = remove_0x_prefix (map lower_char s) in
      if length h = 40 \<and> list_all is_hex_digit h then Inr (''0x'' @ h)
      else Inl (ValueError ''Unknown format''))"

subsection \<open>The provider client\<close>

text \<open>Decimal text of an integer, as \<^verbatim>\<open>json.dumps\<close> and \<^verbatim>\<open>str\<close> print it.\<close>

definition digit_char :: "nat \<Rightarrow> char" where
  "digit_char d = char_of (48 + d)"

function str_nat :: "nat \<Rightarrow> string" where
  "str_nat n = (if n < 10 then [digit_char n] else str_nat (n div 10) @ [digit_char (n mod 10)])"
  by pat_completeness auto
termination
  by (relation "measure id") auto

definition str_int :: "int \<Rightarrow> string" where
  "str_int i = (if i < 0 then CHR ''-'' # str_nat (nat (- i)) else str_nat (nat i))"

text \<open>\<^verbatim>\<open>int(x)\<close> on a float truncates towards zero.\<close>

definition int_of_float :: "rat \<Rightarrow> int" where
  "int_of_float x = (if 0 \<le> x then \<lfloor>x\<rfloor> else \<lceil>x\<rceil>)"

text \<open>\<^verbatim>\<open>json.dumps({"jobId": job_id, "timestamp": ts}).encode()\<close> with the default
  separators.\<close>

definition payload :: "int \<Rightarrow> int \<Rightarrow> bytes" where
  "payload job_id ts =
     ''{'' @ [CHR 0x22] @ ''jobId'' @ [CHR 0x22] @ '': '' @ str_int job_id @
     '', '' @ [CHR 0x22] @ ''timestamp'' @ [CHR 0x22] @ '': '' @ str_int ts @ ''}''"

text \<open>\<^verbatim>\<open>run_workload\<close> at the clock reading \<open>now\<close>. The hash function \<^verbatim>\<open>w3.keccak\<close> and
  the hexadecimal printing of its digest are parameters.\<close>

definition run_workload_at ::
  "(bytes \<Rightarrow> bytes) \<Rightarrow> (bytes \<Rightarrow> string) \<Rightarrow> int \<Rightarrow> rat \<Rightarrow> string \<times> bytes" where
  "run_workload_at keccak hex job_id now =
     (let result_hash = keccak (payload job_id (int_of_float now));
          cid = ''cid://job-'' @ str_int job_id @ ''-'' @ hex result_hash
      in (cid, result_hash))"

definition run_workload ::
  "'w env \<Rightarrow> (bytes \<Rightarrow> bytes) \<Rightarrow> (bytes \<Rightarrow> string) \<Rightarrow> int \<Rightarrow> 'w \<Rightarrow> (string \<times> bytes) \<times> 'w" where
  "run_workload nd keccak hex job_id w =
     (case time_time nd w of (now, w1) \<Rightarrow> (run_workload_at keccak hex job_id now, w1))"

text \<open>The module-level bindings of the provider client.\<close>

record provider =
  NODE_ADDRESS :: address
  provider_acct :: account
  keccak_fn :: "bytes \<Rightarrow> bytes"
  hex_fn :: "bytes \<Rightarrow> string"

text \<open>The \<^verbatim>\<open>for\<close> loop of lines 61 to 65. There is no handler inside the loop: the first
  exception leaves it, and the first component carries that exception to the handler
  around the loop.\<close>

fun complete_jobs ::
  "'w env \<Rightarrow> provider \<Rightarrow> int list \<Rightarrow> 'w \<Rightarrow> exn option \<times> 'w \<times> event list" where
  "complete_jobs nd p [] w = (None, w, [])"
| "complete_jobs nd p (job_id # rest) w =
     (case run_workload nd (keccak_fn p) (hex_fn p) job_id w of ((cid, result_hash), w1) \<Rightarrow>
     (case provider_send_tx nd (provider_acct p) (CompleteJob job_id result_hash cid) w1 of
        (Inl e, w2, evs) \<Rightarrow>
          (Some e, w2, RunWorkload job_id # Print (SubmittingResult job_id) # evs)
      | (Inr r, w2, evs) \<Rightarrow>
          (case complete_jobs nd p rest w2 of (res, w3, evs') \<Rightarrow>
             (res, w3, RunWorkload job_id # Print (SubmittingResult job_id) # evs @ evs'))))"

text \<open>One pass through the body of the provider's \<^verbatim>\<open>while True\<close> (lines 59 to 67).\<close>

definition provider_iteration :: "'w env \<Rightarrow> provider \<Rightarrow> 'w \<Rightarrow> 'w \<times> event list" where
  "provider_iteration nd p w0 =
     (case getRecommendedJobs nd (NODE_ADDRESS p) w0 of
        (Inl e, w1) \<Rightarrow> (w1, [Print (LoopError e)])
      | (Inr jobs, w1) \<Rightarrow>
          (case complete_jobs nd p jobs w1 of
             (None, w2, evs) \<Rightarrow> (w2, evs)
           | (Some e, w2, evs) \<Rightarrow> (w2, evs @ [Print (LoopError e)])))"

subsection \<open>What is read off a run\<close>

definition send_tx_calls :: "event list \<Rightarrow> call list" where
  "send_tx_calls evs = concat (map (\<lambda>ev. case ev of SendTx c \<Rightarrow> [c] | _ \<Rightarrow> []) evs)"

definition is_submission :: "event \<Rightarrow> bool" where
  "is_submission ev = (case ev of BuildTransaction c \<Rightarrow> True | Broadcast s \<Rightarrow> True | _ \<Rightarrow> False)"

definition processed_jobs :: "event list \<Rightarrow> int list" where
  "processed_jobs evs = concat (map (\<lambda>ev. case ev of ProcessJob j \<Rightarrow> [j] | _ \<Rightarrow> []) evs)"

definition funding_reads :: "event list \<Rightarrow> int list" where
  "funding_reads evs = concat (map (\<lambda>ev. case ev of IsFundedCall j \<Rightarrow> [j] | _ \<Rightarrow> []) evs)"

definition workloads_run :: "event list \<Rightarrow> int list" where
  "workloads_run evs = concat (map (\<lambda>ev. case ev of RunWorkload j \<Rightarrow> [j] | _ \<Rightarrow> []) evs)"

definition audit_calls :: "event list \<Rightarrow> call list" where
  "audit_calls evs =
     filter (\<lambda>c. case c of SetJobAudit j b \<Rightarrow> True | _ \<Rightarrow> False) (send_tx_calls evs)"

definition assign_calls :: "event list \<Rightarrow> call list" where
  "assign_calls evs =
     filter (\<lambda>c. case c of AssignJobToOptimalNode j \<Rightarrow> True | _ \<Rightarrow> False) (send_tx_calls evs)"

definition log_requests :: "event list \<Rightarrow> (int \<times> int) list" where
  "log_requests evs = concat (map (\<lambda>ev. case ev of GetLogs a b \<Rightarrow> [(a, b)] | _ \<Rightarrow> []) evs)"

subsection \<open>The ledger behind the node\<close>

text \<open>The events of the blocks \<open>a\<close> to \<open>b\<close> of a chain whose \<^verbatim>\<open>JobCreated\<close> log is \<open>chain\<close>,
  in the order of the log.\<close>

definition in_range :: "int \<Rightarrow> int \<Rightarrow> job_created list \<Rightarrow> job_created list" where
  "in_range a b chain = filter (\<lambda>e. a \<le> ev_block e \<and> ev_block e \<le> b) chain"

text \<open>What the programs assume of the node: a log query that succeeds returns the events
  of the requested blocks of one fixed chain. The programs do not implement this; it is
  the ledger's guarantee (no reorganisation of the blocks already scanned).\<close>

definition ledger_serves :: "'w env \<Rightarrow> job_created list \<Rightarrow> bool" where
  "ledger_serves nd chain =
     (\<forall>a b w entries w'. get_all_entries nd a b w = (Inr entries, w') \<longrightarrow>
        entries = in_range a b chain)"

subsection \<open>A simulated node\<close>

text \<open>A node on which every call succeeds, used to run the programs on concrete inputs.
  Its world is the number of height reads so far: the chain starts at height 100 and
  grows by one block at every read. Failures are put in by record update.\<close>

definition sim_env :: "job_created list \<Rightarrow> nat env" where
  "sim_env chain =
     \<lparr>eth_block_number = (\<lambda>w. (Inr (100 + int w), Suc w)),
      eth_chain_id = (\<lambda>w. (Inr 1, w)),
      eth_get_transaction_count = (\<lambda>a w. (Inr 0, w)),
      build_transaction = (\<lambda>c ps w. (Inr \<lparr>tx_call = c, tx_fields = ps\<rparr>, w)),
      eth_send_raw_transaction = (\<lambda>s w. (Inr ''0xh'', w)),
      eth_wait_for_transaction_receipt = (\<lambda>h w. (Inr \<lparr>status = 1, receipt_tx = h\<rparr>, w)),
      escrow_isFunded = (\<lambda>c j w. (Inr True, w)),
      get_all_entries = (\<lambda>a b w. (Inr (in_range a b chain), w)),
      getRecommendedJobs = (\<lambda>n w. (Inr [1, 2], w)),
      is_connected = (\<lambda>w. (True, w)),
      random_random = (\<lambda>w. (0, w)),
      time_time = (\<lambda>w. (1700000000, w))\<rparr>"

definition sim_acct :: account where
  "sim_acct = \<lparr>acct_address = ''0xA'', acct_key = ''k''\<rparr>"

definition sim_scheduler :: scheduler where
  "sim_scheduler =
     \<lparr>JOB_MANAGER = ''0xJ'', COMPUTE_ESCROW = ''0xE'', START_BLOCK = 100,
      AUDIT_PROBABILITY = Finite 0, POLL_INTERVAL = 10, acct = Some sim_acct,
      escrow = Some ''0xE''\<rparr>"

definition sim_provider :: provider where
  "sim_provider =
     \<lparr>NODE_ADDRESS = ''0xN'', provider_acct = sim_acct, keccak_fn = (\<lambda>b. b),
      hex_fn = (\<lambda>b. b)\<rparr>"

definition sim_chain :: "job_created list" where
  "sim_chain =
     [\<lparr>ev_block = 100, ev_jobId = 5, ev_client = ''0xC''\<rparr>,
      \<lparr>ev_block = 101, ev_jobId = 6, ev_client = ''0xC''\<rparr>]"

definition sim_lib :: pylib where
  "sim_lib =
     \<lparr>to_checksum_address = checked_address,
      py_int = (\<lambda>s. Inr 0),
      py_float = (\<lambda>s. Inr (Finite (1 / 5))),
      from_key = (\<lambda>k. Inr \<lparr>acct_address = ''0xA'', acct_key = k\<rparr>)\<rparr>"

definition rejecting_env :: "nat env" where
  "rejecting_env =
     (sim_env sim_chain)
       \<lparr>eth_send_raw_transaction := (\<lambda>s w. (Inl (ValueError ''nonce too low''), w))\<rparr>"

definition timeout_env :: "nat env" where
  "timeout_env =
     (sim_env sim_chain)
       \<lparr>eth_wait_for_transaction_receipt := (\<lambda>h w. (Inl TimeExhausted, w))\<rparr>"

definition reverting_env :: "nat env" where
  "reverting_env =
     (sim_env sim_chain)
       \<lparr>eth_wait_for_transaction_receipt :=
          (\<lambda>h w. (Inr \<lparr>status = 0, receipt_tx = h\<rparr>, w))\<rparr>"

definition escrow_down_env :: "nat env" where
  "escrow_down_env =
     (sim_env sim_chain)
       \<lparr>escrow_isFunded := (\<lambda>c j w. (Inl (ConnectionError ''escrow unreachable''), w))\<rparr>"

text \<open>A node whose log query fails while its world is 1, that is, right after the
  first height read, and succeeds afterwards.\<close>

definition flaky_env :: "nat env" where
  "flaky_env =
     (sim_env sim_chain)
       \<lparr>get_all_entries :=
          (\<lambda>a b w. if w = 1 then (Inl (ConnectionError ''timeout''), w)
                   else (Inr (in_range a b sim_chain), w))\<rparr>"

subsection \<open>What one pass of the discovery loop fetches\<close>

text \<open>Lines 94 to 98 up to the \<^verbatim>\<open>for\<close>: the height read, the guard and the log query.
  The result is the height and the entries when both reads succeed and the guard holds.\<close>

definition fetch :: "'w env \<Rightarrow> int \<Rightarrow> 'w \<Rightarrow> (int \<times> job_created list) option" where
  "fetch nd last_block w0 =
     (case eth_block_number nd w0 of
        (Inl e, w1) \<Rightarrow> None
      | (Inr current, w1) \<Rightarrow>
          if current \<ge> last_block then
            (case get_all_entries nd last_block current w1 of
               (Inl e, w2) \<Rightarrow> None
             | (Inr entries, w2) \<Rightarrow> Some (current, entries))
          else None)"

definition submissions :: "event list \<Rightarrow> event list" where
  "submissions evs = filter is_submission evs"

section \<open>Properties\<close>

subsection \<open>What each step leaves in the trace\<close>

lemma send_tx_no_key:
  "send_tx nd None fn w = (Inl (AssertionError ''PRIVATE_KEY required''), w, [SendTx fn])"
  by (simp add: send_tx_def)

lemma submit_events:
  "submit nd g a fn w = (r, w', evs) \<Longrightarrow>
     evs = [] \<or> evs = [BuildTransaction fn] \<or> (\<exists>tx. evs = [BuildTransaction fn, Broadcast (Signed a tx)])"
  by (auto simp: submit_def split: prod.splits sum.splits if_splits)

lemma send_tx_events:
  "send_tx nd ac fn w = (r, w', evs) \<Longrightarrow>
     evs = [SendTx fn] \<or> evs = [SendTx fn, BuildTransaction fn]
     \<or> (\<exists>a tx. ac = Some a \<and> evs = [SendTx fn, BuildTransaction fn, Broadcast (Signed a tx)])"
  by (cases ac) (auto simp: send_tx_def split: prod.splits dest: submit_events)

lemma send_tx_calls_simps:
  "send_tx_calls [] = []"
  "send_tx_calls (SendTx c # evs) = c # send_tx_calls evs"
  "send_tx_calls (Print l # evs) = send_tx_calls evs"
  "send_tx_calls (BuildTransaction c # evs) = send_tx_calls evs"
  "send_tx_calls (Broadcast s # evs) = send_tx_calls evs"
  "send_tx_calls (IsFundedCall j # evs) = send_tx_calls evs"
  "send_tx_calls (GetLogs a b # evs) = send_tx_calls evs"
  "send_tx_calls (ProcessJob j # evs) = send_tx_calls evs"
  "send_tx_calls (RunWorkload j # evs) = send_tx_calls evs"
  "send_tx_calls (xs @ ys) = send_tx_calls xs @ send_tx_calls ys"
  by (simp_all add: send_tx_calls_def)

lemma funding_reads_simps:
  "funding_reads [] = []"
  "funding_reads (SendTx c # evs) = funding_reads evs"
  "funding_reads (Print l # evs) = funding_reads evs"
  "funding_reads (BuildTransaction c # evs) = funding_reads evs"
  "funding_reads (Broadcast s # evs) = funding_reads evs"
  "funding_reads (IsFundedCall j # evs) = j # funding_reads evs"
  "funding_reads (GetLogs a b # evs) = funding_reads evs"
  "funding_reads (ProcessJob j # evs) = funding_reads evs"
  "funding_reads (RunWorkload j # evs) = funding_reads evs"
  "funding_reads (xs @ ys) = funding_reads xs @ funding_reads ys"
  by (simp_all add: funding_reads_def)

lemma processed_jobs_simps:
  "processed_jobs [] = []"
  "processed_jobs (SendTx c # evs) = processed_jobs evs"
  "processed_jobs (Print l # evs) = processed_jobs evs"
  "processed_jobs (BuildTransaction c # evs) = processed_jobs evs"
  "processed_jobs (Broadcast s # evs) = processed_jobs evs"
  "processed_jobs (IsFundedCall j # evs) = processed_jobs evs"
  "processed_jobs (GetLogs a b # evs) = processed_jobs evs"
  "processed_jobs (ProcessJob j # evs) = j # processed_jobs evs"
  "processed_jobs (RunWorkload j # evs) = processed_jobs evs"
  "processed_jobs (xs @ ys) = processed_jobs xs @ processed_jobs ys"
  by (simp_all add: processed_jobs_def)

lemmas trace_simps = send_tx_calls_simps funding_reads_simps processed_jobs_simps

lemma send_tx_projections:
  assumes "send_tx nd ac fn w = (r, w', evs)"
  shows "send_tx_calls evs = [fn]" and "funding_reads evs = []" and "processed_jobs evs = []"
  using send_tx_events [OF assms] by (auto simp: trace_simps)

lemma audit_step_projections:
  assumes "audit_step nd m j w = (w', evs)"
  shows "send_tx_calls evs =
           (if draw_below (fst (random_random nd w)) (AUDIT_PROBABILITY m)
            then [SetJobAudit j True] else [])"
    and "funding_reads evs = []" and "processed_jobs evs = []"
  using assms
  by (auto simp: audit_step_def trace_simps
      split: prod.splits sum.splits if_splits dest: send_tx_projections)

lemma assign_step_projections:
  assumes "assign_step nd m j w = (w', evs)"
  shows "send_tx_calls evs = [AssignJobToOptimalNode j]"
    and "funding_reads evs = []" and "processed_jobs evs = []"
  using assms
  by (auto simp: assign_step_def trace_simps
      split: prod.splits sum.splits if_splits dest: send_tx_projections)

lemma funding_step_projections:
  assumes "funding_step nd m j w = (go, w', evs)"
  shows "send_tx_calls evs = []"
    and "funding_reads evs = (case escrow m of None \<Rightarrow> [] | Some c \<Rightarrow> [j])"
    and "processed_jobs evs = []"
  using assms
  by (auto simp: funding_step_def trace_simps
      split: prod.splits sum.splits if_splits option.splits)

subsection \<open>Assignment without an escrow\<close>

text \<open>
  Claim C7. When the escrow binding is \<open>None\<close>, \<^verbatim>\<open>process_job\<close> never calls
  \<^verbatim>\<open>isFunded\<close> and enters \<^verbatim>\<open>send_tx\<close> for \<^verbatim>\<open>assignJobToOptimalNode\<close> of the job exactly
  once, whatever the node answers and whatever the audit draw is.
\<close>

theorem no_escrow_always_assigns:
  assumes "escrow m = None"
  shows "funding_reads (snd (process_job nd m job_id w)) = []
       \<and> assign_calls (snd (process_job nd m job_id w)) = [AssignJobToOptimalNode job_id]"
proof -
  obtain w1 evs1 where a: "audit_step nd m job_id w = (w1, evs1)" by force
  obtain w3 evs3 where c: "assign_step nd m job_id w1 = (w3, evs3)" by force
  have f: "funding_step nd m job_id w1 = (True, w1, [])"
    using assms by (simp add: funding_step_def)
  have p: "process_job nd m job_id w = (w3, ProcessJob job_id # evs1 @ [] @ evs3)"
    by (simp add: process_job_def a f c)
  show ?thesis
    using audit_step_projections [OF a] assign_step_projections [OF c]
    by (simp add: p assign_calls_def trace_simps)
qed

theorem no_escrow_always_assigns_witness:
  "escrow (sim_scheduler\<lparr>escrow := None\<rparr>) = None
   \<and> funding_reads (snd (process_job (sim_env sim_chain) (sim_scheduler\<lparr>escrow := None\<rparr>) 5 0)) = []
   \<and> assign_calls (snd (process_job (sim_env sim_chain) (sim_scheduler\<lparr>escrow := None\<rparr>) 5 0))
       = [AssignJobToOptimalNode 5]"
  using no_escrow_always_assigns
    [where m = "sim_scheduler\<lparr>escrow := None\<rparr>" and nd = "sim_env sim_chain"
       and job_id = 5 and w = 0]
  by simp

subsection \<open>The discovery loop, pass by pass\<close>

lemma audit_calls_simps:
  "audit_calls [] = []"
  "audit_calls (ProcessJob j # evs) = audit_calls evs"
  "audit_calls (Print l # evs) = audit_calls evs"
  "audit_calls (GetLogs a b # evs) = audit_calls evs"
  "audit_calls (xs @ ys) = audit_calls xs @ audit_calls ys"
  by (simp_all add: audit_calls_def trace_simps)

lemma submissions_simps:
  "submissions [] = []"
  "submissions (SendTx c # evs) = submissions evs"
  "submissions (Print l # evs) = submissions evs"
  "submissions (IsFundedCall j # evs) = submissions evs"
  "submissions (GetLogs a b # evs) = submissions evs"
  "submissions (ProcessJob j # evs) = submissions evs"
  "submissions (RunWorkload j # evs) = submissions evs"
  "submissions (xs @ ys) = submissions xs @ submissions ys"
  by (simp_all add: submissions_def is_submission_def)

lemma draw_below_zero: "\<not> draw_below k (Finite 0)"
proof -
  have "(0::rat) \<le> unsigned k" using of_nat_0_le_iff [of "unat k"] by (simp only: of_nat_unat)
  then show ?thesis by (simp add: draw_below_def random_value_def not_less)
qed

lemma draw_below_one: "draw_below k (Finite 1)"
proof -
  have "unat k < 2 ^ 53" using unsigned_less [of k] by simp
  then have "(of_nat (unat k) :: rat) < of_nat (2 ^ 53)" by (simp only: of_nat_less_iff)
  then show ?thesis by (simp add: draw_below_def random_value_def)
qed

lemma process_job_calls:
  "send_tx_calls (snd (process_job nd m j w)) =
     (if draw_below (fst (random_random nd w)) (AUDIT_PROBABILITY m) then [SetJobAudit j True] else [])
     @ (if fst (funding_step nd m j (fst (audit_step nd m j w))) then [AssignJobToOptimalNode j] else [])"
proof -
  obtain w1 evs1 where a: "audit_step nd m j w = (w1, evs1)" by force
  obtain go w2 evs2 where f: "funding_step nd m j w1 = (go, w2, evs2)" by (metis prod_cases3)
  obtain w3 evs3 where c: "assign_step nd m j w2 = (w3, evs3)" by force
  show ?thesis
    using audit_step_projections(1) [OF a] funding_step_projections(1) [OF f]
      assign_step_projections(1) [OF c]
    by (simp add: process_job_def a f c trace_simps)
qed

lemma process_job_processed: "processed_jobs (snd (process_job nd m j w)) = [j]"
proof -
  obtain w1 evs1 where a: "audit_step nd m j w = (w1, evs1)" by force
  obtain go w2 evs2 where f: "funding_step nd m j w1 = (go, w2, evs2)" by (metis prod_cases3)
  obtain w3 evs3 where c: "assign_step nd m j w2 = (w3, evs3)" by force
  show ?thesis
    using audit_step_projections(3) [OF a] funding_step_projections(3) [OF f]
      assign_step_projections(3) [OF c]
    by (simp add: process_job_def a f c trace_simps)
qed

lemma process_job_audit_calls:
  "audit_calls (snd (process_job nd m j w)) =
     (if draw_below (fst (random_random nd w)) (AUDIT_PROBABILITY m) then [SetJobAudit j True] else [])"
  by (simp add: audit_calls_def process_job_calls)

lemma process_entries_processed:
  "processed_jobs (snd (process_entries nd m es w)) = map ev_jobId es"
proof (induction es arbitrary: w)
  case Nil show ?case by (simp add: trace_simps)
next
  case (Cons e es)
  obtain w1 evs1 where p: "process_job nd m (ev_jobId e) w = (w1, evs1)" by force
  obtain w2 evs2 where q: "process_entries nd m es w1 = (w2, evs2)" by force
  have "processed_jobs evs1 = [ev_jobId e]" using process_job_processed [of nd m "ev_jobId e" w] by (simp add: p)
  moreover have "processed_jobs evs2 = map ev_jobId es" using Cons.IH [of w1] by (simp add: q)
  ultimately show ?case by (simp add: p q trace_simps)
qed

lemma process_entries_audit_zero:
  assumes "AUDIT_PROBABILITY m = Finite 0"
  shows "audit_calls (snd (process_entries nd m es w)) = []"
proof (induction es arbitrary: w)
  case Nil show ?case by (simp add: audit_calls_simps)
next
  case (Cons e es)
  obtain w1 evs1 where p: "process_job nd m (ev_jobId e) w = (w1, evs1)" by force
  obtain w2 evs2 where q: "process_entries nd m es w1 = (w2, evs2)" by force
  have "audit_calls evs1 = []"
    using process_job_audit_calls [of nd m "ev_jobId e" w] assms by (simp add: p draw_below_zero)
  moreover have "audit_calls evs2 = []" using Cons.IH [of w1] by (simp add: q)
  ultimately show ?case by (simp add: p q audit_calls_simps)
qed

lemma process_entries_audit_one:
  assumes "AUDIT_PROBABILITY m = Finite 1"
  shows "audit_calls (snd (process_entries nd m es w)) = map (\<lambda>e. SetJobAudit (ev_jobId e) True) es"
proof (induction es arbitrary: w)
  case Nil show ?case by (simp add: audit_calls_simps)
next
  case (Cons e es)
  obtain w1 evs1 where p: "process_job nd m (ev_jobId e) w = (w1, evs1)" by force
  obtain w2 evs2 where q: "process_entries nd m es w1 = (w2, evs2)" by force
  have "audit_calls evs1 = [SetJobAudit (ev_jobId e) True]"
    using process_job_audit_calls [of nd m "ev_jobId e" w] assms by (simp add: p draw_below_one)
  moreover have "audit_calls evs2 = map (\<lambda>e. SetJobAudit (ev_jobId e) True) es"
    using Cons.IH [of w1] by (simp add: q)
  ultimately show ?case by (simp add: p q audit_calls_simps)
qed

lemma iteration_cursor:
  "fst (scheduler_iteration nd m c w) =
     (case fetch nd c w of None \<Rightarrow> c | Some (current, entries) \<Rightarrow> current + 1)"
  by (auto simp: scheduler_iteration_def fetch_def split: prod.splits sum.splits)

lemma iteration_projection:
  assumes nil: "P [] = []"
      and logs: "\<And>a b xs. P (GetLogs a b # xs) = P xs"
      and prints: "\<And>l xs. P (Print l # xs) = P xs"
  shows "case fetch nd c w of
           None \<Rightarrow> P (snd (snd (scheduler_iteration nd m c w))) = []
         | Some (current, entries) \<Rightarrow>
             (\<exists>w2. P (snd (snd (scheduler_iteration nd m c w)))
                     = P (snd (process_entries nd m entries w2)))"
proof (cases "eth_block_number nd w")
  case (Pair r w1)
  show ?thesis
  proof (cases r)
    case (Inl e)
    then show ?thesis by (simp add: scheduler_iteration_def fetch_def Pair nil prints)
  next
    case (Inr current)
    show ?thesis
    proof (cases "c \<le> current")
      case False
      then show ?thesis by (simp add: scheduler_iteration_def fetch_def Pair Inr nil)
    next
      case True
      obtain r2 w2 where g: "get_all_entries nd c current w1 = (r2, w2)" by force
      show ?thesis
      proof (cases r2)
        case (Inl e)
        then show ?thesis
          by (simp add: scheduler_iteration_def fetch_def Pair Inr True g nil logs prints)
      next
        case r2: (Inr entries)
        obtain w3 evs where pe: "process_entries nd m entries w2 = (w3, evs)" by force
        have "P (snd (snd (scheduler_iteration nd m c w))) = P (snd (process_entries nd m entries w2))"
          by (simp add: scheduler_iteration_def Pair Inr True g r2 pe logs)
        then show ?thesis
          by (auto simp: fetch_def Pair Inr True g r2)
      qed
    qed
  qed
qed

lemma iteration_processed:
  "processed_jobs (snd (snd (scheduler_iteration nd m c w))) =
     (case fetch nd c w of None \<Rightarrow> [] | Some (current, entries) \<Rightarrow> map ev_jobId entries)"
  using iteration_projection [where P = processed_jobs and nd = nd and c = c and w = w and m = m]
  by (auto simp: trace_simps process_entries_processed split: option.splits)

lemma iteration_audit_zero:
  assumes "AUDIT_PROBABILITY m = Finite 0"
  shows "audit_calls (snd (snd (scheduler_iteration nd m c w))) = []"
  using iteration_projection [where P = audit_calls and nd = nd and c = c and w = w and m = m]
  by (auto simp: audit_calls_simps process_entries_audit_zero [OF assms] split: option.splits)

lemma iteration_audit_one:
  assumes "AUDIT_PROBABILITY m = Finite 1"
  shows "audit_calls (snd (snd (scheduler_iteration nd m c w))) =
           map (\<lambda>j. SetJobAudit j True) (processed_jobs (snd (snd (scheduler_iteration nd m c w))))"
  using iteration_projection [where P = audit_calls and nd = nd and c = c and w = w and m = m]
  by (auto simp: audit_calls_simps process_entries_audit_one [OF assms] iteration_processed comp_def
      split: option.splits)

lemma loop_audit_zero:
  assumes "AUDIT_PROBABILITY m = Finite 0"
  shows "audit_calls (snd (snd (scheduler_loop nd m n c w))) = []"
proof (induction n arbitrary: c w)
  case 0 show ?case by (simp add: audit_calls_simps)
next
  case (Suc n)
  obtain c1 w1 evs1 where it: "scheduler_iteration nd m c w = (c1, w1, evs1)" by (metis prod_cases3)
  obtain c2 w2 evs2 where lp: "scheduler_loop nd m n c1 w1 = (c2, w2, evs2)" by (metis prod_cases3)
  have "audit_calls evs1 = []" using iteration_audit_zero [OF assms, where nd = nd and c = c and w = w] by (simp add: it)
  moreover have "audit_calls evs2 = []" using Suc.IH [of c1 w1] by (simp add: lp)
  ultimately show ?case by (simp add: it lp audit_calls_simps)
qed

lemma loop_audit_one:
  assumes "AUDIT_PROBABILITY m = Finite 1"
  shows "audit_calls (snd (snd (scheduler_loop nd m n c w))) =
           map (\<lambda>j. SetJobAudit j True) (processed_jobs (snd (snd (scheduler_loop nd m n c w))))"
proof (induction n arbitrary: c w)
  case 0 show ?case by (simp add: audit_calls_simps trace_simps)
next
  case (Suc n)
  obtain c1 w1 evs1 where it: "scheduler_iteration nd m c w = (c1, w1, evs1)" by (metis prod_cases3)
  obtain c2 w2 evs2 where lp: "scheduler_loop nd m n c1 w1 = (c2, w2, evs2)" by (metis prod_cases3)
  have "audit_calls evs1 = map (\<lambda>j. SetJobAudit j True) (processed_jobs evs1)"
    using iteration_audit_one [OF assms, where nd = nd and c = c and w = w] by (simp add: it)
  moreover have "audit_calls evs2 = map (\<lambda>j. SetJobAudit j True) (processed_jobs evs2)"
    using Suc.IH [of c1 w1] by (simp add: lp)
  ultimately show ?case by (simp add: it lp audit_calls_simps trace_simps)
qed

subsection \<open>Audit sampling at the two ends\<close>

text \<open>
  Claim C8. With the audit probability 0, \<^verbatim>\<open>send_tx\<close> is never entered for
  \<^verbatim>\<open>setJobAudit\<close>, for one job and over any number of passes of the loop. With the
  probability 1, it is entered exactly once for every job handed to \<^verbatim>\<open>process_job\<close>:
  the draw is \<open>k / 2^53\<close> with \<open>k < 2^53\<close>, and the comparison is strict.
\<close>

theorem audit_probability_zero_and_one:
  "(AUDIT_PROBABILITY m = Finite 0 \<longrightarrow>
      audit_calls (snd (process_job nd m job_id w)) = []
      \<and> audit_calls (snd (snd (scheduler_loop nd m n c w))) = [])
 \<and> (AUDIT_PROBABILITY m = Finite 1 \<longrightarrow>
      audit_calls (snd (process_job nd m job_id w)) = [SetJobAudit job_id True]
      \<and> audit_calls (snd (snd (scheduler_loop nd m n c w))) =
          map (\<lambda>j. SetJobAudit j True) (processed_jobs (snd (snd (scheduler_loop nd m n c w)))))"
  by (simp add: process_job_audit_calls draw_below_zero draw_below_one loop_audit_zero loop_audit_one)


theorem audit_probability_zero_and_one_witness:
  "AUDIT_PROBABILITY sim_scheduler = Finite 0
   \<and> audit_calls (snd (snd (scheduler_loop (sim_env sim_chain) sim_scheduler 2 100 0))) = []
   \<and> AUDIT_PROBABILITY (sim_scheduler\<lparr>AUDIT_PROBABILITY := Finite 1\<rparr>) = Finite 1
   \<and> audit_calls (snd (process_job (sim_env sim_chain)
        (sim_scheduler\<lparr>AUDIT_PROBABILITY := Finite 1\<rparr>) 5 0)) = [SetJobAudit 5 True]"
  using audit_probability_zero_and_one
      [where m = sim_scheduler and nd = "sim_env sim_chain" and n = 2 and c = 100 and w = 0]
    audit_probability_zero_and_one
      [where m = "sim_scheduler\<lparr>AUDIT_PROBABILITY := Finite 1\<rparr>" and nd = "sim_env sim_chain"
         and job_id = 5 and w = 0]
  by (simp add: sim_scheduler_def)

subsection \<open>Running without a signing key\<close>

lemma send_tx_no_key_submissions:
  "send_tx nd None fn w = (r, w', evs) \<Longrightarrow> submissions evs = []"
  by (auto simp: send_tx_def submissions_simps)

lemma process_job_no_key:
  assumes "acct m = None"
  shows "submissions (snd (process_job nd m j w)) = []"
proof -
  obtain w1 evs1 where a: "audit_step nd m j w = (w1, evs1)" by force
  obtain go w2 evs2 where f: "funding_step nd m j w1 = (go, w2, evs2)" by (metis prod_cases3)
  obtain w3 evs3 where c: "assign_step nd m j w2 = (w3, evs3)" by force
  have 1: "submissions evs1 = []"
    using a assms by (auto simp: audit_step_def send_tx_def submissions_simps split: prod.splits if_splits)
  have 2: "submissions evs2 = []"
    using f by (auto simp: funding_step_def submissions_simps split: option.splits prod.splits sum.splits if_splits)
  have 3: "submissions evs3 = []"
    using c assms by (auto simp: assign_step_def send_tx_def submissions_simps)
  show ?thesis by (simp add: process_job_def a f c 1 2 3 submissions_simps)
qed

lemma process_entries_no_key:
  assumes "acct m = None"
  shows "submissions (snd (process_entries nd m es w)) = []"
proof (induction es arbitrary: w)
  case Nil show ?case by (simp add: submissions_simps)
next
  case (Cons e es)
  obtain w1 evs1 where p: "process_job nd m (ev_jobId e) w = (w1, evs1)" by force
  obtain w2 evs2 where q: "process_entries nd m es w1 = (w2, evs2)" by force
  have "submissions evs1 = []"
    using process_job_no_key [OF assms, where nd = nd and j = "ev_jobId e" and w = w] by (simp add: p)
  moreover have "submissions evs2 = []" using Cons.IH [of w1] by (simp add: q)
  ultimately show ?case by (simp add: p q submissions_simps)
qed

lemma iteration_no_key:
  assumes "acct m = None"
  shows "submissions (snd (snd (scheduler_iteration nd m c w))) = []"
  using iteration_projection [where P = submissions and nd = nd and c = c and w = w and m = m]
  by (auto simp: submissions_simps process_entries_no_key [OF assms] split: option.splits)

lemma loop_no_key:
  assumes "acct m = None"
  shows "submissions (snd (snd (scheduler_loop nd m n c w))) = []"
proof (induction n arbitrary: c w)
  case 0 show ?case by (simp add: submissions_simps)
next
  case (Suc n)
  obtain c1 w1 evs1 where it: "scheduler_iteration nd m c w = (c1, w1, evs1)" by (metis prod_cases3)
  obtain c2 w2 evs2 where lp: "scheduler_loop nd m n c1 w1 = (c2, w2, evs2)" by (metis prod_cases3)
  have "submissions evs1 = []"
    using iteration_no_key [OF assms, where nd = nd and c = c and w = w] by (simp add: it)
  moreover have "submissions evs2 = []" using Suc.IH [of c1 w1] by (simp add: lp)
  ultimately show ?case by (simp add: it lp submissions_simps)
qed

text \<open>
  Claim C9. Without a signing key (\<open>acct = None\<close>) every call of the scheduler's
  \<^verbatim>\<open>send_tx\<close> raises the assertion error at once: its trace is the entry alone, no
  transaction is built. Over any number of passes of the discovery loop no transaction is
  built or broadcast, and in every pass the cursor and the jobs handed to
  \<^verbatim>\<open>process_job\<close> are what the fetch of that pass alone determines: the cursor becomes
  \<open>current + 1\<close> and every fetched job is processed whenever the fetch succeeds.
\<close>

theorem no_key_no_submission:
  assumes "acct m = None"
  shows "send_tx nd (acct m) fn w = (Inl (AssertionError ''PRIVATE_KEY required''), w, [SendTx fn])
       \<and> submissions (snd (snd (scheduler_loop nd m n c w))) = []
       \<and> fst (scheduler_iteration nd m c w) =
           (case fetch nd c w of None \<Rightarrow> c | Some (current, entries) \<Rightarrow> current + 1)
       \<and> processed_jobs (snd (snd (scheduler_iteration nd m c w))) =
           (case fetch nd c w of None \<Rightarrow> [] | Some (current, entries) \<Rightarrow> map ev_jobId entries)"
  using assms by (simp add: send_tx_no_key loop_no_key iteration_cursor iteration_processed)

lemma sim_fetch: "fetch (sim_env sim_chain) 100 0 = Some (100, [\<lparr>ev_block = 100, ev_jobId = 5, ev_client = ''0xC''\<rparr>])"
  by (simp add: fetch_def sim_env_def sim_chain_def in_range_def)

theorem no_key_no_submission_witness:
  "acct (sim_scheduler\<lparr>acct := None\<rparr>) = None
   \<and> submissions (snd (snd (scheduler_loop (sim_env sim_chain) (sim_scheduler\<lparr>acct := None\<rparr>) 2 100 0))) = []
   \<and> fst (scheduler_iteration (sim_env sim_chain) (sim_scheduler\<lparr>acct := None\<rparr>) 100 0) = 101
   \<and> processed_jobs (snd (snd (scheduler_iteration (sim_env sim_chain) (sim_scheduler\<lparr>acct := None\<rparr>) 100 0))) = [5]"
  using no_key_no_submission
      [where m = "sim_scheduler\<lparr>acct := None\<rparr>" and nd = "sim_env sim_chain" and n = 2
         and c = 100 and w = 0]
  by (simp add: sim_fetch)

subsection \<open>A failed funding read\<close>

text \<open>
  Claim C1. The claim says that a funding read that raises ends the processing of the
  job without an assignment. The run below is \<^verbatim>\<open>process_job(7)\<close> on a node whose
  \<^verbatim>\<open>isFunded\<close> call raises: the handler prints and falls through, and the assignment
  transaction is built, broadcast and confirmed.
\<close>

theorem escrow_read_failure_still_assigns:
  "snd (process_job escrow_down_env sim_scheduler 7 0) =
     [ProcessJob 7, IsFundedCall 7,
      Print (EscrowCheckFailed 7 (ConnectionError ''escrow unreachable'')),
      SendTx (AssignJobToOptimalNode 7), BuildTransaction (AssignJobToOptimalNode 7),
      Broadcast (Signed sim_acct
        \<lparr>tx_call = AssignJobToOptimalNode 7,
         tx_fields = \<lparr>tx_from = ''0xA'', tx_nonce = 0, tx_gas = 1000000,
           tx_maxFeePerGas = 2000000000, tx_maxPriorityFeePerGas = 1000000000,
           tx_chainId = 1\<rparr>\<rparr>),
      Print (AssignedJob 7)]"
  by (simp add: process_job_def audit_step_def funding_step_def assign_step_def send_tx_def
      submit_def escrow_down_env_def sim_env_def sim_scheduler_def sim_acct_def gwei_def
      draw_below_zero)

subsection \<open>The failures of \<^verbatim>\<open>send_tx\<close>\<close>

text \<open>
  Claim C4, as the code has it. Both versions of \<^verbatim>\<open>send_tx\<close> end as the submission
  does. Once the nonce, the chain id and the transaction are there, an exception of the
  broadcast leaves \<^verbatim>\<open>send_tx\<close> unchanged, so does an exception of the wait for the receipt
  (a timeout among them), and a receipt is returned when its status is 1 and replaced by
  \<^verbatim>\<open>RuntimeError('Transaction failed')\<close>, which carries no cause, otherwise. No failure
  is wrapped in a common error.
\<close>

theorem send_tx_failure_paths:
  assumes nonce: "eth_get_transaction_count nd (acct_address a) w0 = (Inr nonce, w1)"
      and chain: "eth_chain_id nd w1 = (Inr cid, w2)"
      and build: "build_transaction nd fn
                    \<lparr>tx_from = acct_address a, tx_nonce = nonce, tx_gas = gas,
                     tx_maxFeePerGas = 2000000000, tx_maxPriorityFeePerGas = 1000000000,
                     tx_chainId = cid\<rparr> w2 = (Inr tx, w3)"
  shows "fst (send_tx nd (Some a) fn w0) = fst (submit nd 1000000 a fn w0)
       \<and> fst (provider_send_tx nd a fn w0) = fst (submit nd 800000 a fn w0)
       \<and> (\<forall>e w4. eth_send_raw_transaction nd (Signed a tx) w3 = (Inl e, w4) \<longrightarrow>
             fst (submit nd gas a fn w0) = Inl e)
       \<and> (\<forall>h w4 e w5. eth_send_raw_transaction nd (Signed a tx) w3 = (Inr h, w4)
              \<and> eth_wait_for_transaction_receipt nd h w4 = (Inl e, w5) \<longrightarrow>
             fst (submit nd gas a fn w0) = Inl e)
       \<and> (\<forall>h w4 r w5. eth_send_raw_transaction nd (Signed a tx) w3 = (Inr h, w4)
              \<and> eth_wait_for_transaction_receipt nd h w4 = (Inr r, w5) \<longrightarrow>
             fst (submit nd gas a fn w0) =
               (if status r = 1 then Inr r else Inl (RuntimeError ''Transaction failed'')))"
proof -
  have 1: "fst (send_tx nd (Some a) fn w0) = fst (submit nd 1000000 a fn w0)"
    by (simp add: send_tx_def split: prod.splits)
  have 2: "fst (provider_send_tx nd a fn w0) = fst (submit nd 800000 a fn w0)"
    by (simp add: provider_send_tx_def split: prod.splits)
  have 3: "\<forall>e w4. eth_send_raw_transaction nd (Signed a tx) w3 = (Inl e, w4) \<longrightarrow>
             fst (submit nd gas a fn w0) = Inl e"
    using nonce chain build by (simp add: submit_def gwei_def)
  have 4: "\<forall>h w4 e w5. eth_send_raw_transaction nd (Signed a tx) w3 = (Inr h, w4)
              \<and> eth_wait_for_transaction_receipt nd h w4 = (Inl e, w5) \<longrightarrow>
             fst (submit nd gas a fn w0) = Inl e"
    using nonce chain build by (simp add: submit_def gwei_def)
  have 5: "\<forall>h w4 r w5. eth_send_raw_transaction nd (Signed a tx) w3 = (Inr h, w4)
              \<and> eth_wait_for_transaction_receipt nd h w4 = (Inr r, w5) \<longrightarrow>
             fst (submit nd gas a fn w0) =
               (if status r = 1 then Inr r else Inl (RuntimeError ''Transaction failed''))"
    using nonce chain build by (simp add: submit_def gwei_def)
  from 1 2 3 4 5 show ?thesis by blast
qed

theorem send_tx_failure_paths_witness:
  "fst (send_tx timeout_env (Some sim_acct) (AssignJobToOptimalNode 5) 0) = Inl TimeExhausted"
  using send_tx_failure_paths
    [where nd = timeout_env and a = sim_acct and fn = "AssignJobToOptimalNode 5"
       and gas = 1000000 and ?w0.0 = 0 and ?w1.0 = 0 and ?w2.0 = 0 and ?w3.0 = 0
       and nonce = 0 and cid = 1
       and tx = "\<lparr>tx_call = AssignJobToOptimalNode 5,
                  tx_fields = \<lparr>tx_from = ''0xA'', tx_nonce = 0, tx_gas = 1000000,
                    tx_maxFeePerGas = 2000000000, tx_maxPriorityFeePerGas = 1000000000,
                    tx_chainId = 1\<rparr>\<rparr>"]
  by (simp add: timeout_env_def sim_env_def sim_acct_def)

text \<open>
  Claim C4, as stated, fails: three failure paths of the scheduler's \<^verbatim>\<open>send_tx\<close> end
  in exceptions of three different classes, and the provider's version does the same.
\<close>

theorem send_tx_errors_not_uniform:
  "fst (send_tx rejecting_env (Some sim_acct) (AssignJobToOptimalNode 5) 0)
     = Inl (ValueError ''nonce too low'')
   \<and> fst (send_tx timeout_env (Some sim_acct) (AssignJobToOptimalNode 5) 0) = Inl TimeExhausted
   \<and> fst (send_tx reverting_env (Some sim_acct) (AssignJobToOptimalNode 5) 0)
     = Inl (RuntimeError ''Transaction failed'')
   \<and> fst (provider_send_tx rejecting_env sim_acct (CompleteJob 9 ''hash'' ''cid'') 0)
     = Inl (ValueError ''nonce too low'')"
  by (simp add: send_tx_def provider_send_tx_def submit_def rejecting_env_def timeout_env_def
      reverting_env_def sim_env_def sim_acct_def gwei_def)

subsection \<open>The provider loop\<close>

lemma workloads_run_simps:
  "workloads_run [] = []"
  "workloads_run (SendTx c # evs) = workloads_run evs"
  "workloads_run (Print l # evs) = workloads_run evs"
  "workloads_run (BuildTransaction c # evs) = workloads_run evs"
  "workloads_run (Broadcast s # evs) = workloads_run evs"
  "workloads_run (RunWorkload j # evs) = j # workloads_run evs"
  "workloads_run (xs @ ys) = workloads_run xs @ workloads_run ys"
  by (simp_all add: workloads_run_def)

lemma provider_send_tx_projections:
  assumes "provider_send_tx nd a fn w = (r, w', evs)"
  shows "workloads_run evs = []" and "send_tx_calls evs = [fn]"
  using assms
  by (auto simp: provider_send_tx_def workloads_run_simps trace_simps
      split: prod.splits dest!: submit_events)

text \<open>What one pass of the \<^verbatim>\<open>for\<close> loop leaves in the trace: the workloads run are
  the recommended jobs up to and including the first one whose completion raises, and
  the calls of \<^verbatim>\<open>send_tx\<close> are the \<^verbatim>\<open>completeJob\<close> calls of exactly these jobs, in order.\<close>

lemma complete_jobs_stops:
  "complete_jobs nd p jobs w = (res, w', evs) \<Longrightarrow>
     list_all2 (\<lambda>c j. \<exists>h cid. c = CompleteJob j h cid) (send_tx_calls evs) (workloads_run evs)
     \<and> (case res of
        None \<Rightarrow> workloads_run evs = jobs
      | Some e \<Rightarrow> (\<exists>before j after. jobs = before @ j # after
                    \<and> workloads_run evs = before @ [j]))"
proof (induction jobs arbitrary: w res w' evs)
  case Nil
  then show ?case by (simp add: workloads_run_simps trace_simps)
next
  case (Cons job rest)
  obtain cid h w1 where rw: "run_workload nd (keccak_fn p) (hex_fn p) job w = ((cid, h), w1)"
    by (metis prod.exhaust)
  obtain r w2 evs1 where st: "provider_send_tx nd (provider_acct p) (CompleteJob job h cid) w1 = (r, w2, evs1)"
    by (metis prod_cases3)
  note pr = provider_send_tx_projections [OF st]
  show ?case
  proof (cases r)
    case (Inl e)
    with Cons.prems rw st have "res = Some e" and "evs = RunWorkload job # Print (SubmittingResult job) # evs1"
      by simp_all
    then show ?thesis using pr
      by (auto simp: workloads_run_simps trace_simps intro!: exI [of _ "[]"])
  next
    case (Inr rc)
    obtain res2 w3 evs2 where cj: "complete_jobs nd p rest w2 = (res2, w3, evs2)"
      by (metis prod_cases3)
    with Cons.prems rw st Inr have eq: "res = res2"
        "evs = RunWorkload job # Print (SubmittingResult job) # evs1 @ evs2"
      by simp_all
    note ih = Cons.IH [OF cj]
    then have l: "list_all2 (\<lambda>c j. \<exists>h cid. c = CompleteJob j h cid)
                    (send_tx_calls evs2) (workloads_run evs2)" by simp
    have l': "list_all2 (\<lambda>c j. \<exists>h cid. c = CompleteJob j h cid)
                    (send_tx_calls evs) (workloads_run evs)"
      using l pr by (simp add: eq workloads_run_simps trace_simps)
    show ?thesis
    proof (cases res2)
      case None
      then show ?thesis using ih eq pr l' by (simp add: workloads_run_simps trace_simps)
    next
      case (Some e)
      then obtain before j after where
        "rest = before @ j # after" "workloads_run evs2 = before @ [j]"
        using ih by auto
      then have "\<exists>before' j' after'. job # rest = before' @ j' # after'
                    \<and> workloads_run evs = before' @ [j']"
        using eq pr by (auto simp: workloads_run_simps intro!: exI [of _ "job # before"])
      then show ?thesis using l' eq Some by simp
    qed
  qed
qed

lemma provider_iteration_stops:
  assumes "getRecommendedJobs nd (NODE_ADDRESS p) w0 = (Inr jobs, w1)"
      and "complete_jobs nd p jobs w1 = (res, w2, evs)"
  shows "snd (provider_iteration nd p w0) =
           evs @ (case res of None \<Rightarrow> [] | Some e \<Rightarrow> [Print (LoopError e)])"
  using assms by (simp add: provider_iteration_def split: option.splits)

lemma rejecting_send:
  "provider_send_tx rejecting_env a fn w =
     (Inl (ValueError ''nonce too low''), w,
      [SendTx fn, BuildTransaction fn,
       Broadcast (Signed a \<lparr>tx_call = fn,
         tx_fields = \<lparr>tx_from = acct_address a, tx_nonce = 0, tx_gas = 800000,
           tx_maxFeePerGas = 2000000000, tx_maxPriorityFeePerGas = 1000000000,
           tx_chainId = 1\<rparr>\<rparr>)])"
  by (simp add: provider_send_tx_def submit_def rejecting_env_def sim_env_def gwei_def)

lemma digit_char_one: "digit_char (Suc 0) = CHR ''1''"
  unfolding digit_char_def by code_simp

lemma str_int_one: "str_int 1 = ''1''"
  by (simp add: str_int_def str_nat.simps digit_char_one)

lemma sim_workload_one:
  "run_workload rejecting_env (keccak_fn sim_provider) (hex_fn sim_provider) 1 0 =
     ((''cid://job-1-'' @ payload 1 1700000000, payload 1 1700000000), 0)"
  by (simp add: run_workload_def run_workload_at_def rejecting_env_def sim_env_def
      sim_provider_def int_of_float_def str_int_one Let_def)

text \<open>
  Claim C2. The claim says that a failure for one job is caught and logged for that job
  alone and that the jobs after it are still attempted in the same iteration; the
  scheduler's \<^verbatim>\<open>process_job\<close> does catch each of its steps in this way. In the provider
  the \<^verbatim>\<open>try\<close> (provider\_client.py lines 59 to 66) encloses the whole \<^verbatim>\<open>for\<close> loop. The
  run below is one iteration on a node that recommends the jobs 1 and 2 and rejects the
  broadcast: the workload of job 1 is run and its completion is signed and sent, the
  rejection leaves the loop, one \<^verbatim>\<open>Loop error\<close> line is printed, and job 2 is neither run
  nor submitted.
\<close>

theorem provider_skips_jobs_after_failure:
  "getRecommendedJobs rejecting_env (NODE_ADDRESS sim_provider) 0 = (Inr [1, 2], 0)
   \<and> snd (provider_iteration rejecting_env sim_provider 0) =
       [RunWorkload 1, Print (SubmittingResult 1),
        SendTx (CompleteJob 1 (payload 1 1700000000) (''cid://job-1-'' @ payload 1 1700000000)),
        BuildTransaction
          (CompleteJob 1 (payload 1 1700000000) (''cid://job-1-'' @ payload 1 1700000000)),
        Broadcast (Signed sim_acct
          \<lparr>tx_call =
             CompleteJob 1 (payload 1 1700000000) (''cid://job-1-'' @ payload 1 1700000000),
           tx_fields = \<lparr>tx_from = ''0xA'', tx_nonce = 0, tx_gas = 800000,
             tx_maxFeePerGas = 2000000000, tx_maxPriorityFeePerGas = 1000000000,
             tx_chainId = 1\<rparr>\<rparr>),
        Print (LoopError (ValueError ''nonce too low''))]
   \<and> workloads_run (snd (provider_iteration rejecting_env sim_provider 0)) = [1]
   \<and> send_tx_calls (snd (provider_iteration rejecting_env sim_provider 0)) =
       [CompleteJob 1 (payload 1 1700000000) (''cid://job-1-'' @ payload 1 1700000000)]"
proof -
  have g: "getRecommendedJobs rejecting_env (NODE_ADDRESS sim_provider) 0 = (Inr [1, 2], 0)"
    by (simp add: rejecting_env_def sim_env_def)
  have a: "provider_acct sim_provider = sim_acct" "acct_address sim_acct = ''0xA''"
    by (simp_all add: sim_provider_def sim_acct_def)
  show ?thesis
    by (simp add: provider_iteration_def g sim_workload_one rejecting_send a
        workloads_run_simps trace_simps)
qed

subsection \<open>A failed log query\<close>

lemma log_requests_simps:
  "log_requests [] = []"
  "log_requests (SendTx c # evs) = log_requests evs"
  "log_requests (Print l # evs) = log_requests evs"
  "log_requests (BuildTransaction c # evs) = log_requests evs"
  "log_requests (Broadcast s # evs) = log_requests evs"
  "log_requests (IsFundedCall j # evs) = log_requests evs"
  "log_requests (GetLogs a b # evs) = (a, b) # log_requests evs"
  "log_requests (ProcessJob j # evs) = log_requests evs"
  "log_requests (xs @ ys) = log_requests xs @ log_requests ys"
  by (simp_all add: log_requests_def)

lemma send_tx_log_requests:
  assumes "send_tx nd ac fn w = (r, w', evs)"
  shows "log_requests evs = []"
  using send_tx_events [OF assms] by (auto simp: log_requests_simps)

lemma process_job_log_requests: "log_requests (snd (process_job nd m j w)) = []"
proof -
  obtain w1 evs1 where a: "audit_step nd m j w = (w1, evs1)" by force
  obtain go w2 evs2 where f: "funding_step nd m j w1 = (go, w2, evs2)" by (metis prod_cases3)
  obtain w3 evs3 where c: "assign_step nd m j w2 = (w3, evs3)" by force
  have "log_requests evs1 = []" using a
    by (auto simp: audit_step_def log_requests_simps
        split: prod.splits sum.splits if_splits dest: send_tx_log_requests)
  moreover have "log_requests evs2 = []" using f
    by (auto simp: funding_step_def log_requests_simps
        split: prod.splits sum.splits if_splits option.splits)
  moreover have "log_requests evs3 = []" using c
    by (auto simp: assign_step_def log_requests_simps
        split: prod.splits sum.splits if_splits dest: send_tx_log_requests)
  ultimately show ?thesis by (simp add: process_job_def a f c log_requests_simps)
qed

lemma process_entries_log_requests: "log_requests (snd (process_entries nd m es w)) = []"
proof (induction es arbitrary: w)
  case Nil show ?case by (simp add: log_requests_simps)
next
  case (Cons e es)
  obtain w1 evs1 where p: "process_job nd m (ev_jobId e) w = (w1, evs1)" by force
  obtain w2 evs2 where q: "process_entries nd m es w1 = (w2, evs2)" by force
  have "log_requests evs1 = []" using process_job_log_requests [of nd m "ev_jobId e" w] by (simp add: p)
  moreover have "log_requests evs2 = []" using Cons.IH [of w1] by (simp add: q)
  ultimately show ?case by (simp add: p q log_requests_simps)
qed

lemma iteration_log_requests:
  "log_requests (snd (snd (scheduler_iteration nd m c w))) =
     (case eth_block_number nd w of
        (Inl e, w1) \<Rightarrow> []
      | (Inr current, w1) \<Rightarrow> if c \<le> current then [(c, current)] else [])"
proof -
  obtain r w1 where h: "eth_block_number nd w = (r, w1)" by force
  show ?thesis
  proof (cases r)
    case (Inl e)
    then show ?thesis by (simp add: scheduler_iteration_def h log_requests_simps)
  next
    case (Inr current)
    show ?thesis
    proof (cases "c \<le> current")
      case False
      then show ?thesis by (simp add: scheduler_iteration_def h Inr log_requests_simps)
    next
      case True
      obtain r2 w2 where g: "get_all_entries nd c current w1 = (r2, w2)" by force
      show ?thesis
      proof (cases r2)
        case (Inl e)
        then show ?thesis using True
          by (simp add: scheduler_iteration_def h Inr g log_requests_simps)
      next
        case (Inr entries)
        obtain w3 evs where p: "process_entries nd m entries w2 = (w3, evs)" by force
        have "log_requests evs = []"
          using process_entries_log_requests [of nd m entries w2] by (simp add: p)
        then show ?thesis using True \<open>r = Inr current\<close>
          by (simp add: scheduler_iteration_def h Inr g p log_requests_simps)
      qed
    qed
  qed
qed

lemma iteration_failed_fetch:
  assumes "eth_block_number nd w0 = (Inr current, w1)" and "last_block \<le> current"
      and "get_all_entries nd last_block current w1 = (Inl e, w2)"
  shows "scheduler_iteration nd m last_block w0 =
           (last_block, w2, [GetLogs last_block current, Print (LoopError e)])"
  using assms by (simp add: scheduler_iteration_def)

lemma flaky_height: "eth_block_number flaky_env w = (Inr (100 + int w), Suc w)"
  by (simp add: flaky_env_def sim_env_def)

lemma flaky_logs_fail:
  "get_all_entries flaky_env a b (Suc 0) = (Inl (ConnectionError ''timeout''), Suc 0)"
  by (simp add: flaky_env_def sim_env_def)

lemma flaky_fetch_second:
  "fetch flaky_env 100 (Suc 0) = Some (101, sim_chain)"
  by (simp add: fetch_def flaky_env_def sim_env_def in_range_def sim_chain_def)

text \<open>
  Claim C5, as the code has it. In a pass of the discovery loop whose log query for
  \<^verbatim>\<open>[last_block, current]\<close> raises, the handler of line 103 prints the error and the
  cursor \<^verbatim>\<open>last_block\<close> keeps its value; nothing is processed. The next pass reads the
  height again and asks for \<^verbatim>\<open>[last_block, current']\<close>, with the same lower end and
  the height \<^verbatim>\<open>current'\<close> it has just read as upper end: the range starts at the same
  block and is the same range only if the height has not moved. In any pass the cursor
  changes only when the height read and the log query both succeeded, and then it
  becomes \<^verbatim>\<open>current + 1\<close> after every fetched entry has been handed to
  \<^verbatim>\<open>process_job\<close>.
\<close>

theorem failed_fetch_keeps_cursor:
  assumes "eth_block_number nd w0 = (Inr current, w1)" and "last_block \<le> current"
      and "get_all_entries nd last_block current w1 = (Inl e, w2)"
  shows "scheduler_iteration nd m last_block w0 =
           (last_block, w2, [GetLogs last_block current, Print (LoopError e)])
       \<and> (eth_block_number nd w2 = (Inr current', w3) \<and> last_block \<le> current' \<longrightarrow>
            log_requests (snd (snd (scheduler_iteration nd m last_block w2)))
              = [(last_block, current')])
       \<and> (fst (scheduler_iteration nd m c w) \<noteq> c \<longrightarrow>
            (\<exists>cur entries. fetch nd c w = Some (cur, entries)
               \<and> fst (scheduler_iteration nd m c w) = cur + 1
               \<and> processed_jobs (snd (snd (scheduler_iteration nd m c w)))
                   = map ev_jobId entries))"
proof (intro conjI impI)
  show "scheduler_iteration nd m last_block w0 =
           (last_block, w2, [GetLogs last_block current, Print (LoopError e)])"
    by (rule iteration_failed_fetch [OF assms])
next
  assume "eth_block_number nd w2 = (Inr current', w3) \<and> last_block \<le> current'"
  then show "log_requests (snd (snd (scheduler_iteration nd m last_block w2)))
              = [(last_block, current')]"
    by (simp add: iteration_log_requests)
next
  assume a: "fst (scheduler_iteration nd m c w) \<noteq> c"
  show "\<exists>cur entries. fetch nd c w = Some (cur, entries)
               \<and> fst (scheduler_iteration nd m c w) = cur + 1
               \<and> processed_jobs (snd (snd (scheduler_iteration nd m c w)))
                   = map ev_jobId entries"
  proof (cases "fetch nd c w")
    case None
    with a show ?thesis by (simp add: iteration_cursor)
  next
    case (Some p)
    obtain cur entries where "p = (cur, entries)" by force
    with Some show ?thesis by (simp add: iteration_cursor iteration_processed)
  qed
qed

text \<open>
  The theorem on a node whose first log query fails and whose chain grows by one block
  between the two passes.
\<close>

theorem failed_fetch_keeps_cursor_witness:
  "scheduler_iteration flaky_env sim_scheduler 100 0 =
     (100, Suc 0, [GetLogs 100 100, Print (LoopError (ConnectionError ''timeout''))])
   \<and> log_requests (snd (snd (scheduler_iteration flaky_env sim_scheduler 100 (Suc 0)))) = [(100, 101)]
   \<and> fst (scheduler_iteration flaky_env sim_scheduler 100 (Suc 0)) = 102
   \<and> processed_jobs (snd (snd (scheduler_iteration flaky_env sim_scheduler 100 (Suc 0)))) = [5, 6]"
proof -
  have c: "fst (scheduler_iteration flaky_env sim_scheduler 100 (Suc 0)) \<noteq> 100"
    by (simp add: iteration_cursor flaky_fetch_second)
  have h0: "eth_block_number flaky_env 0 = (Inr 100, Suc 0)" by (simp add: flaky_height)
  have h1: "eth_block_number flaky_env (Suc 0) = (Inr 101, Suc (Suc 0))" by (simp add: flaky_height)
  show ?thesis
    using failed_fetch_keeps_cursor
      [where nd = flaky_env and m = sim_scheduler and last_block = 100 and ?w0.0 = 0
         and current = 100 and ?w1.0 = "Suc 0" and e = "ConnectionError ''timeout''"
         and ?w2.0 = "Suc 0" and current' = 101 and ?w3.0 = "Suc (Suc 0)" and c = 100
         and w = "Suc 0", OF h0 _ flaky_logs_fail]
    by (simp add: h1 c flaky_fetch_second sim_chain_def)
qed

text \<open>
  Claim C5 as stated does not hold of the code: the range scanned after a failed fetch
  is not the identical range. On that node the first pass asks for the blocks 100 to 100
  and fails; the second pass asks for the blocks 100 to 101.
\<close>

theorem rescan_range_differs:
  "log_requests (snd (snd (scheduler_loop flaky_env sim_scheduler 2 100 0)))
     = [(100, 100), (100, 101)]"
proof -
  have l0: "log_requests (snd (snd (scheduler_iteration flaky_env sim_scheduler 100 0))) = [(100, 100)]"
    by (simp add: iteration_log_requests flaky_height)
  have l1: "log_requests (snd (snd (scheduler_iteration flaky_env sim_scheduler 100 (Suc 0)))) = [(100, 101)]"
    by (simp add: iteration_log_requests flaky_height)
  have i0: "scheduler_iteration flaky_env sim_scheduler 100 0 =
     (100, Suc 0, [GetLogs 100 100, Print (LoopError (ConnectionError ''timeout''))])"
    by (rule iteration_failed_fetch [where current = 100 and ?w1.0 = "Suc 0"])
       (simp_all add: flaky_height flaky_logs_fail)
  obtain c1 w1 evs1 where i1: "scheduler_iteration flaky_env sim_scheduler 100 (Suc 0) = (c1, w1, evs1)"
    by (metis prod_cases3)
  from l1 i1 have "log_requests evs1 = [(100, 101)]" by simp
  then show ?thesis
    by (simp add: numeral_2_eq_2 i0 i1 log_requests_simps)
qed

subsection \<open>Each event once, in block order\<close>

lemma consecutive_ranges:
  assumes "sorted (map f xs)" and "a \<le> b" and "b \<le> c"
  shows "filter (\<lambda>e. a \<le> f e \<and> f e < b) xs @ filter (\<lambda>e. b \<le> f e \<and> f e < c) xs
           = filter (\<lambda>e. a \<le> f e \<and> f e < (c::int)) xs"
  using assms(1)
proof (induction xs)
  case Nil
  show ?case by simp
next
  case (Cons x xs)
  then have s: "sorted (map f xs)" and le: "\<forall>y\<in>set xs. f x \<le> f y" by simp_all
  note ih = Cons.IH [OF s]
  show ?case
  proof (cases "f x < b")
    case True
    with assms(2,3) ih show ?thesis by auto
  next
    case False
    with le have "\<forall>y\<in>set xs. \<not> f y < b" by auto
    then have e: "filter (\<lambda>e. a \<le> f e \<and> f e < b) xs = []" by (simp add: filter_empty_conv)
    with False assms(2,3) ih show ?thesis by auto
  qed
qed

lemma fetch_served:
  assumes "ledger_serves nd chain" and "fetch nd c w = Some (current, entries)"
  shows "c \<le> current \<and> entries = filter (\<lambda>e. c \<le> ev_block e \<and> ev_block e < current + 1) chain"
proof -
  obtain r w1 where h: "eth_block_number nd w = (r, w1)" by force
  from assms(2) h obtain w2 where "c \<le> current"
    and g: "get_all_entries nd c current w1 = (Inr entries, w2)"
    by (auto simp: fetch_def split: sum.splits if_splits prod.splits)
  moreover from assms(1) g have "entries = in_range c current chain"
    unfolding ledger_serves_def by blast
  ultimately show ?thesis by (simp add: in_range_def)
qed

lemma iteration_served:
  assumes "ledger_serves nd chain" and "scheduler_iteration nd m c w = (c', w', evs)"
  shows "c \<le> c' \<and> processed_jobs evs
           = map ev_jobId (filter (\<lambda>e. c \<le> ev_block e \<and> ev_block e < c') chain)"
proof (cases "fetch nd c w")
  case None
  with iteration_cursor [of nd m c w] iteration_processed [of nd m c w] assms(2)
  show ?thesis by simp
next
  case (Some p)
  obtain current entries where p: "p = (current, entries)" by force
  from fetch_served [OF assms(1)] Some p
  have "c \<le> current"
    and "entries = filter (\<lambda>e. c \<le> ev_block e \<and> ev_block e < current + 1) chain"
    by simp_all
  with iteration_cursor [of nd m c w] iteration_processed [of nd m c w] assms(2) Some p
  show ?thesis by simp
qed

lemma loop_served:
  assumes "ledger_serves nd chain" and "sorted (map ev_block chain)"
  shows "scheduler_loop nd m n c0 w0 = (c, w, evs) \<Longrightarrow>
         c0 \<le> c \<and> processed_jobs evs
           = map ev_jobId (filter (\<lambda>e. c0 \<le> ev_block e \<and> ev_block e < c) chain)"
proof (induction n arbitrary: c0 w0 c w evs)
  case 0
  then show ?case by (simp add: trace_simps)
next
  case (Suc n)
  obtain c1 w1 evs1 where i: "scheduler_iteration nd m c0 w0 = (c1, w1, evs1)"
    by (metis prod_cases3)
  obtain c2 w2 evs2 where l: "scheduler_loop nd m n c1 w1 = (c2, w2, evs2)"
    by (metis prod_cases3)
  from Suc.prems i l have eq: "c = c2" "evs = evs1 @ evs2" by simp_all
  from iteration_served [OF assms(1) i] have a: "c0 \<le> c1"
    and pa: "processed_jobs evs1
           = map ev_jobId (filter (\<lambda>e. c0 \<le> ev_block e \<and> ev_block e < c1) chain)"
    by simp_all
  from Suc.IH [OF l] have b: "c1 \<le> c2"
    and pb: "processed_jobs evs2
           = map ev_jobId (filter (\<lambda>e. c1 \<le> ev_block e \<and> ev_block e < c2) chain)"
    by simp_all
  have "processed_jobs evs = map ev_jobId
      (filter (\<lambda>e. c0 \<le> ev_block e \<and> ev_block e < c1) chain
       @ filter (\<lambda>e. c1 \<le> ev_block e \<and> ev_block e < c2) chain)"
    by (simp add: eq pa pb trace_simps)
  also have "\<dots> = map ev_jobId (filter (\<lambda>e. c0 \<le> ev_block e \<and> ev_block e < c2) chain)"
    by (simp only: consecutive_ranges [OF assms(2) a b])
  finally show ?case using a b eq by simp
qed

lemma sim_ledger: "ledger_serves (sim_env chain) chain"
  by (simp add: ledger_serves_def sim_env_def)

lemma sim_pass_one:
  "fst (scheduler_iteration (sim_env sim_chain) sim_scheduler 100 0) = 101
   \<and> fst (snd (scheduler_iteration (sim_env sim_chain) sim_scheduler 100 0)) = Suc 0"
  by (simp add: scheduler_iteration_def process_job_def audit_step_def funding_step_def
      assign_step_def send_tx_def submit_def draw_below_zero sim_env_def sim_scheduler_def
      sim_chain_def in_range_def gwei_def)

lemma sim_fetch_two:
  "fetch (sim_env sim_chain) 101 (Suc 0) =
     Some (101, [\<lparr>ev_block = 101, ev_jobId = 6, ev_client = ''0xC''\<rparr>])"
  by (simp add: fetch_def sim_env_def sim_chain_def in_range_def)

text \<open>
  Claim C6. Let the node answer every successful log query from one chain whose
  \<^verbatim>\<open>JobCreated\<close> log is in block order. Then after any number of passes of the discovery
  loop, started at the cursor \<^verbatim>\<open>c0\<close> and arrived at the cursor \<^verbatim>\<open>c\<close>, the jobs handed to
  \<^verbatim>\<open>process_job\<close> are exactly the events of the blocks \<^verbatim>\<open>c0\<close> to \<^verbatim>\<open>c - 1\<close>, each once, in
  the order of the log, which is non-decreasing in the block number; the cursor never
  moves back. Passes whose fetch fails contribute nothing and leave the cursor, so the
  ranges of the successful passes are consecutive and disjoint.
\<close>

theorem each_event_processed_once:
  assumes "ledger_serves nd chain" and "sorted (map ev_block chain)"
      and "scheduler_loop nd m n c0 w0 = (c, w, evs)"
  shows "c0 \<le> c
       \<and> processed_jobs evs
           = map ev_jobId (filter (\<lambda>e. c0 \<le> ev_block e \<and> ev_block e < c) chain)
       \<and> sorted (map ev_block (filter (\<lambda>e. c0 \<le> ev_block e \<and> ev_block e < c) chain))"
proof -
  have "sorted (map ev_block (filter (\<lambda>e. c0 \<le> ev_block e \<and> ev_block e < c) chain))"
    using assms(2) by (simp add: sorted_filter)
  with loop_served [OF assms] show ?thesis by simp
qed

text \<open>
  The theorem on the simulated node, for two passes from block 100: job 5 of block 100 in
  the first pass, job 6 of block 101 in the second.
\<close>

theorem each_event_processed_once_witness:
  "ledger_serves (sim_env sim_chain) sim_chain \<and> sorted (map ev_block sim_chain)
   \<and> processed_jobs (snd (snd (scheduler_loop (sim_env sim_chain) sim_scheduler 2 100 0))) = [5, 6]"
proof -
  let ?l = "scheduler_loop (sim_env sim_chain) sim_scheduler 2 100 0"
  let ?i = "scheduler_iteration (sim_env sim_chain) sim_scheduler 100 0"
  let ?j = "scheduler_iteration (sim_env sim_chain) sim_scheduler 101 (Suc 0)"
  have s: "sorted (map ev_block sim_chain)" by (simp add: sim_chain_def)
  have l: "?l = (fst ?l, fst (snd ?l), snd (snd ?l))" by simp
  have i: "?i = (101, Suc 0, snd (snd ?i))"
    using sim_pass_one by (metis prod.collapse)
  have j: "?j = (102, fst (snd ?j), snd (snd ?j))"
    using iteration_cursor [of "sim_env sim_chain" sim_scheduler 101 "Suc 0"]
    by (simp add: sim_fetch_two) (metis prod.collapse)
  have c: "fst ?l = 102"
    apply (simp only: numeral_2_eq_2 scheduler_loop.simps)
    apply (subst i)
    apply (simp only: prod.case)
    apply (subst j)
    apply (simp only: prod.case fst_conv)
    done
  have r: "processed_jobs (snd (snd ?l))
      = map ev_jobId (filter (\<lambda>e. 100 \<le> ev_block e \<and> ev_block e < fst ?l) sim_chain)"
    by (rule conjunct1 [OF conjunct2 [OF each_event_processed_once [OF sim_ledger s l]]])
  show ?thesis unfolding r c by (simp add: sim_chain_def sim_ledger)
qed

subsection \<open>The escrow guard of the module initialisation\<close>

lemma process_job_funding_reads:
  "funding_reads (snd (process_job nd m j w)) = (case escrow m of None \<Rightarrow> [] | Some c \<Rightarrow> [j])"
proof -
  obtain w1 evs1 where a: "audit_step nd m j w = (w1, evs1)" by force
  obtain go w2 evs2 where f: "funding_step nd m j w1 = (go, w2, evs2)" by (metis prod_cases3)
  obtain w3 evs3 where c: "assign_step nd m j w2 = (w3, evs3)" by force
  show ?thesis
    using audit_step_projections(2) [OF a] funding_step_projections(2) [OF f]
      assign_step_projections(2) [OF c]
    by (simp add: process_job_def a f c trace_simps)
qed

text \<open>When the library accepts \<^verbatim>\<open>"0x0"\<close> and returns \<open>z\<close>, the binding is \<^verbatim>\<open>None\<close> exactly
  when \<^verbatim>\<open>COMPUTE_ESCROW\<close> is \<open>z\<close>; when it rejects it, the initialisation raises.\<close>

lemma init_raises:
  assumes "to_checksum_address lib ''0x0'' = Inl e"
  shows "\<exists>e'. fst (scheduler_init lib nd environ w0) = Inl e'"
  unfolding scheduler_init_def Let_def using assms
  by (simp split: sum.split prod.split)

lemma escrow_guard:
  assumes "to_checksum_address lib ''0x0'' = Inr z"
  shows "case fst (scheduler_init lib nd environ w0) of
           Inl e \<Rightarrow> True
         | Inr m \<Rightarrow> escrow m = (if COMPUTE_ESCROW m \<noteq> z then Some (COMPUTE_ESCROW m) else None)"
  unfolding scheduler_init_def Let_def using assms
  by (simp split: sum.split prod.split)

lemma sim_lib_rejects: "to_checksum_address sim_lib ''0x0'' = Inl (ValueError ''Unknown format'')"
  by (simp add: sim_lib_def checked_address_def remove_0x_prefix_def)

lemma zero_address_checked: "checked_address zero_address = Inr zero_address"
  by (simp add: checked_address_def zero_address_def remove_0x_prefix_def lower_char_def
      is_hex_digit_def)

lemma sim_init_reaches_guard:
  "scheduler_init sim_lib (sim_env sim_chain) Map.empty 0 = (Inl (ValueError ''Unknown format''), 0)"
proof -
  have z: "to_checksum_address sim_lib zero_address = Inr zero_address"
    by (simp add: sim_lib_def zero_address_checked)
  have r: "to_checksum_address sim_lib ''0x0'' = Inl (ValueError ''Unknown format'')"
    by (simp add: sim_lib_def checked_address_def remove_0x_prefix_def)
  have c: "is_connected (sim_env sim_chain) 0 = (True, 0)" by (simp add: sim_env_def)
  have i: "py_int sim_lib s = Inr 0" "py_float sim_lib s = Inr (Finite (1 / 5))" for s
    by (simp_all add: sim_lib_def)
  show ?thesis
    by (simp add: scheduler_init_def getenv_def z r c i)
qed

text \<open>
  Claim C3. Line 36 evaluates \<^verbatim>\<open>Web3.to_checksum_address("0x0")\<close> before it binds
  \<^verbatim>\<open>escrow\<close>, whatever \<^verbatim>\<open>COMPUTE_ESCROW\<close> is. The library rejects \<^verbatim>\<open>"0x0"\<close>, which is
  not the text of a 20-byte address; given that, the module initialisation ends in an
  exception for every environment and every node, so no run reaches the discovery loop,
  and none reaches it with \<^verbatim>\<open>escrow = None\<close>. And whenever the escrow binding is not
  \<^verbatim>\<open>None\<close>, \<^verbatim>\<open>process_job\<close> takes the funding-check branch: it reads \<^verbatim>\<open>isFunded\<close> of the
  job exactly once.
\<close>

theorem escrow_guard_never_none:
  assumes "to_checksum_address lib ''0x0'' = Inl e"
  shows "(\<exists>e'. fst (scheduler_init lib nd environ w0) = Inl e')
       \<and> (escrow m = Some c \<longrightarrow> funding_reads (snd (process_job nd m j w)) = [j])"
  using init_raises [OF assms] by (simp add: process_job_funding_reads)

text \<open>
  The theorem with the address check above as the library function, the default
  environment and the simulated node.
\<close>

theorem escrow_guard_never_none_witness:
  "to_checksum_address sim_lib ''0x0'' = Inl (ValueError ''Unknown format'')
   \<and> (\<exists>e'. fst (scheduler_init sim_lib (sim_env sim_chain) Map.empty 0) = Inl e')
   \<and> funding_reads (snd (process_job (sim_env sim_chain) sim_scheduler 5 0)) = [5]"
  using escrow_guard_never_none
    [where lib = sim_lib and e = "ValueError ''Unknown format''" and nd = "sim_env sim_chain"
       and environ = Map.empty and ?w0.0 = 0 and m = sim_scheduler and c = "''0xE''"
       and j = 5 and w = 0, OF sim_lib_rejects]
  by (simp add: sim_lib_rejects sim_scheduler_def)

subsection \<open>The workload result depends on the clock\<close>

text \<open>The decimal text determines the integer.\<close>

declare str_nat.simps [simp del]

lemma digit_char_inj: "a < 10 \<Longrightarrow> b < 10 \<Longrightarrow> digit_char a = digit_char b \<Longrightarrow> a = b"
proof -
  assume a: "a < 10" and b: "b < 10" and e: "digit_char a = digit_char b"
  from e have "(of_char (char_of (48 + a)) :: nat) = of_char (char_of (48 + b))"
    by (simp add: digit_char_def)
  with a b show "a = b" by simp
qed

lemma digit_char_not_minus: "d < 10 \<Longrightarrow> digit_char d \<noteq> CHR ''-''"
proof
  assume d: "d < 10" and e: "digit_char d = CHR ''-''"
  from e have "(of_char (char_of (48 + d)) :: nat) = of_char CHR ''-''"
    by (simp add: digit_char_def)
  with d show False by simp
qed

lemma str_nat_not_empty: "str_nat n \<noteq> []"
  by (subst str_nat.simps) simp

lemma str_nat_digits: "c \<in> set (str_nat n) \<Longrightarrow> c \<noteq> CHR ''-''"
proof (induction n rule: str_nat.induct)
  case (1 n)
  show ?case
  proof (cases "n < 10")
    case True
    with "1.prems" have "c = digit_char n" by (subst (asm) str_nat.simps) simp
    with True show ?thesis by (simp add: digit_char_not_minus)
  next
    case False
    with "1.prems" have "c \<in> set (str_nat (n div 10)) \<or> c = digit_char (n mod 10)"
      by (subst (asm) str_nat.simps) auto
    moreover have "digit_char (n mod 10) \<noteq> CHR ''-''" by (rule digit_char_not_minus) simp
    ultimately show ?thesis using "1.IH" [OF False] by auto
  qed
qed

lemma str_nat_inj: "str_nat m = str_nat n \<Longrightarrow> m = n"
proof (induction m arbitrary: n rule: str_nat.induct)
  case (1 m)
  have um: "str_nat m = (if m < 10 then [digit_char m] else str_nat (m div 10) @ [digit_char (m mod 10)])"
    by (rule str_nat.simps)
  have un: "str_nat n = (if n < 10 then [digit_char n] else str_nat (n div 10) @ [digit_char (n mod 10)])"
    by (rule str_nat.simps)
  show ?case
  proof (cases "m < 10")
    case True
    show ?thesis
    proof (cases "n < 10")
      case n: True
      with True "1.prems" um un show ?thesis by (simp add: digit_char_inj)
    next
      case n: False
      with True "1.prems" um un have "[digit_char m] = str_nat (n div 10) @ [digit_char (n mod 10)]"
        by simp
      then have "str_nat (n div 10) = []" by simp
      then show ?thesis by (simp add: str_nat_not_empty)
    qed
  next
    case False
    show ?thesis
    proof (cases "n < 10")
      case n: True
      with False "1.prems" um un have "str_nat (m div 10) @ [digit_char (m mod 10)] = [digit_char n]"
        by simp
      then show ?thesis by (simp add: str_nat_not_empty)
    next
      case n: False
      with False "1.prems" um un
      have e: "str_nat (m div 10) = str_nat (n div 10)"
        and d: "digit_char (m mod 10) = digit_char (n mod 10)" by simp_all
      from "1.IH" [OF False e] have "m div 10 = n div 10" .
      moreover from d have "m mod 10 = n mod 10" by (auto intro: digit_char_inj)
      ultimately show ?thesis by (metis div_mult_mod_eq)
    qed
  qed
qed

lemma str_int_inj: "str_int a = str_int b \<Longrightarrow> a = b"
proof -
  assume e: "str_int a = str_int b"
  have m: "CHR ''-'' # xs \<noteq> str_nat n" for xs n
    using str_nat_digits [of "CHR ''-''" n] by (metis list.set_intros(1))
  show "a = b"
  proof (cases "a < 0")
    case True
    show ?thesis
    proof (cases "b < 0")
      case b: True
      with True e have "nat (- a) = nat (- b)" by (simp add: str_int_def str_nat_inj)
      with True b show ?thesis by simp
    next
      case b: False
      with True e m show ?thesis by (simp add: str_int_def)
    qed
  next
    case False
    show ?thesis
    proof (cases "b < 0")
      case b: True
      with False e m [of "str_nat (nat (- b))" "nat a"] show ?thesis by (simp add: str_int_def)
    next
      case b: False
      with False e have "nat a = nat b" by (simp add: str_int_def str_nat_inj)
      with False b show ?thesis by simp
    qed
  qed
qed

lemma payload_inj: "payload j s = payload j t \<Longrightarrow> s = t"
  by (simp add: payload_def str_int_inj)

lemma run_workload_same_second:
  "int_of_float t1 = int_of_float t2 \<Longrightarrow>
     run_workload_at keccak hex j t1 = run_workload_at keccak hex j t2"
  by (simp add: run_workload_at_def)

text \<open>
  Claim C10. \<^verbatim>\<open>run_workload\<close> hashes a payload that contains \<^verbatim>\<open>int(time.time())\<close>. For
  every job id and any two calls whose clock readings fall in different seconds, the two
  payloads differ, and unless the hash function collides on these two payloads the
  result hashes differ, hence so do the returned pairs: a completion retried in a later
  second submits another result hash than the first attempt. (Two calls within the same
  second return the same pair, by the lemma above.)
\<close>

theorem run_workload_depends_on_time:
  assumes "time_time nd w = (t1, w1)" and "time_time nd w' = (t2, w2)"
      and "int_of_float t1 \<noteq> int_of_float t2"
      and "inj_on keccak {payload j (int_of_float t1), payload j (int_of_float t2)}"
  shows "snd (fst (run_workload nd keccak hex j w)) \<noteq> snd (fst (run_workload nd keccak hex j w'))
       \<and> fst (run_workload nd keccak hex j w) \<noteq> fst (run_workload nd keccak hex j w')"
proof -
  from assms(3) have "payload j (int_of_float t1) \<noteq> payload j (int_of_float t2)"
    using payload_inj by blast
  with assms(4) have "keccak (payload j (int_of_float t1)) \<noteq> keccak (payload j (int_of_float t2))"
    by (simp add: inj_on_def)
  with assms(1,2) show ?thesis
    by (auto simp: run_workload_def run_workload_at_def Let_def)
qed

text \<open>
  The theorem for job 5 on a node whose clock reads 1700000000 and then 1700000001, with
  the identity in the place of the hash function.
\<close>

theorem run_workload_depends_on_time_witness:
  "snd (fst (run_workload
        ((sim_env sim_chain)\<lparr>time_time := (\<lambda>w. (if w = 0 then 1700000000 else 1700000001, w))\<rparr>)
        (\<lambda>b. b) (\<lambda>b. b) 5 0))
   \<noteq> snd (fst (run_workload
        ((sim_env sim_chain)\<lparr>time_time := (\<lambda>w. (if w = 0 then 1700000000 else 1700000001, w))\<rparr>)
        (\<lambda>b. b) (\<lambda>b. b) 5 1))"
  using run_workload_depends_on_time
    [where nd = "(sim_env sim_chain)\<lparr>time_time := (\<lambda>w. (if w = 0 then 1700000000 else 1700000001, w))\<rparr>"
       and w = 0 and w' = 1 and ?t1.0 = 1700000000 and ?t2.0 = 1700000001
       and ?w1.0 = 0 and ?w2.0 = 1 and keccak = "\<lambda>b. b" and hex = "\<lambda>b. b" and j = 5]
  by (simp add: int_of_float_def)

end
